theory Spec2Isabelle
  imports Complex_Main "HOL-Library.Sublist" "HOL-Library.AList" "HOL-Library.Word"
begin

unbundle bit_operations_syntax

section \<open>Python strings\<close>

text \<open>
  Texts are \<^typ>\<open>string\<close>: a list of characters, each read as a Unicode code point
  below 256, so that \<^const>\<open>length\<close> is Python's \<open>len\<close> on such texts.

  \<open>str.isspace\<close> on these code points: TAB, LF, VT, FF, CR, the separators
  0x1C..0x1F, the space, NEL (0x85) and the no-break space (0xA0).
\<close>

definition isspace :: "char \<Rightarrow> bool" where
  "isspace c =
     (let n = (of_char c :: nat)
      in (9 \<le> n \<and> n \<le> 13) \<or> (28 \<le> n \<and> n \<le> 32) \<or> n = 133 \<or> n = 160)"

text \<open>
  \<open>str.lower\<close> on one code point below 256: \<open>A..Z\<close> and the Latin-1 capitals
  0xC0..0xDE (the multiplication sign 0xD7 apart) move up by 32.
\<close>

definition lower_char :: "char \<Rightarrow> char" where
  "lower_char c =
     (let n = (of_char c :: nat)
      in if (65 \<le> n \<and> n \<le> 90) \<or> (192 \<le> n \<and> n \<le> 222 \<and> n \<noteq> 215)
         then char_of (n + 32) else c)"

definition lower :: "string \<Rightarrow> string" where
  "lower s = map lower_char s"

text \<open>
  \<open>str.split()\<close> without argument: the maximal runs of non-whitespace characters,
  in order; no empty string is ever produced. The first argument is the word being read.
\<close>

fun split_aux :: "string \<Rightarrow> string \<Rightarrow> string list" where
  "split_aux w [] = (if w = [] then [] else [w])"
| "split_aux w (c # cs) =
     (if isspace c then (if w = [] then split_aux [] cs else w # split_aux [] cs)
      else split_aux (w @ [c]) cs)"

definition split :: "string \<Rightarrow> string list" where
  "split s = split_aux [] s"

text \<open>\<open>s.strip()\<close> is truthy exactly when \<open>s\<close> has a character that is not whitespace.\<close>

definition strip_nonempty :: "string \<Rightarrow> bool" where
  "strip_nonempty s = list_ex (\<lambda>c. \<not> isspace c) s"

text \<open>\<open>sub in s\<close> on strings: \<open>sub\<close> occurs in \<open>s\<close> as a contiguous run.\<close>

definition str_in :: "string \<Rightarrow> string \<Rightarrow> bool" where
  "str_in sub s = sublist sub s"


section \<open>analysis.py: the relevance gate and the query rewrite\<close>

text \<open>
  A langchain \<open>Document\<close>, used for whole documents and for chunks alike: its text and
  its metadata dictionary, whose values are strings or numbers.
\<close>

datatype meta_value = Str string | Num nat

record doc =
  page_content :: string
  metadata :: "string \<rightharpoonup> meta_value"

definition stop_words :: "string set" where
  "stop_words = set [''the'', ''a'', ''an'', ''and'', ''or'', ''but'', ''in'', ''on'', ''at'',
     ''to'', ''for'', ''of'', ''with'', ''by'', ''is'', ''are'', ''was'', ''were'', ''how'',
     ''what'', ''when'', ''where'', ''why'', ''do'', ''does'', ''did'', ''can'', ''will'',
     ''would'', ''should'']"

definition word_set :: "string \<Rightarrow> string set" where
  "word_set s = set (split (lower s))"

definition meaningful_query_words :: "string \<Rightarrow> string set" where
  "meaningful_query_words query = word_set query - stop_words"

text \<open>
  The loop of \<open>validate_chunk_relevance\<close> over the chunks, returning at the first chunk
  whose overlap ratio reaches the threshold. The ratio \<open>len(overlap) / len(meaningful)\<close>
  and the threshold are Python floats; they are read here as the exact quotient and an
  exact real number.
\<close>

fun relevant_chunk_exists :: "string set \<Rightarrow> doc list \<Rightarrow> real \<Rightarrow> bool" where
  "relevant_chunk_exists m [] threshold = False"
| "relevant_chunk_exists m (c # cs) threshold =
     (let chunk_words = word_set (page_content c);
          overlap = m \<inter> chunk_words;
          overlap_ratio = real (card overlap) / real (card m)
      in if overlap_ratio \<ge> threshold then True
         else relevant_chunk_exists m cs threshold)"

definition validate_chunk_relevance :: "string \<Rightarrow> doc list \<Rightarrow> real \<Rightarrow> bool" where
  "validate_chunk_relevance query chunks threshold =
     (if chunks = [] then False
      else let m = meaningful_query_words query
           in if m = {} then True
              else relevant_chunk_exists m chunks threshold)"

text \<open>
  \<open>enhance_query_for_better_retrieval\<close>: the list \<open>enhanced_terms\<close> is filled by two
  independent tests, and only its first element is appended.
\<close>

definition enhanced_terms :: "string \<Rightarrow> string list" where
  "enhanced_terms question =
     (let question_lower = lower question;
          t1 = (if list_ex (\<lambda>w. str_in w question_lower) [''after'', ''post'', ''following'']
                   \<and> \<not> str_in ''incident'' question_lower
                then [''post-incident''] else []);
          t2 = (if list_ex (\<lambda>w. str_in w question_lower)
                     [''investigate'', ''analysis'', ''review'']
                   \<and> \<not> str_in ''investigation'' question_lower
                then [''investigation''] else [])
      in t1 @ t2)"

definition enhance_query_for_better_retrieval :: "string \<Rightarrow> string" where
  "enhance_query_for_better_retrieval question =
     (case enhanced_terms question of
        [] \<Rightarrow> question
      | t # _ \<Rightarrow> question @ '' '' @ t)"


section \<open>main.py: the chat handler\<close>







section \<open>utils.py: the chunking engine\<close>

text \<open>
  A \<open>RecursiveCharacterTextSplitter\<close> is given by its separators, its chunk size and its
  chunk overlap (its length function is always \<open>len\<close>). How it cuts a text is langchain's
  business: \<open>split_text\<close> is a parameter of the model. \<open>split_documents([doc])\<close> wraps
  each piece in a document carrying a copy of the metadata of \<open>doc\<close>.
\<close>

record splitter =
  separators :: "string list"
  chunk_size :: nat
  chunk_overlap :: nat

type_synonym split_text = "splitter \<Rightarrow> string \<Rightarrow> string list"

definition split_documents :: "split_text \<Rightarrow> splitter \<Rightarrow> doc \<Rightarrow> doc list" where
  "split_documents st sp d =
     map (\<lambda>t. \<lparr>page_content = t, metadata = metadata d\<rparr>) (st sp (page_content d))"

abbreviation nl :: string where
  "nl \<equiv> [CHR 0x0A]"

definition large_splitters :: "splitter list" where
  "large_splitters =
     [\<lparr>separators = [nl @ nl @ nl @ nl, nl @ nl @ nl, nl @ nl, nl, ''. '', '', '', '' ''],
       chunk_size = 4000, chunk_overlap = 400\<rparr>,
      \<lparr>separators = [nl @ nl @ nl, nl @ nl, nl, ''. '', '', '', '' ''],
       chunk_size = 2000, chunk_overlap = 300\<rparr>,
      \<lparr>separators = [nl @ nl, nl, ''. '', '', '', '' ''],
       chunk_size = 1200, chunk_overlap = 200\<rparr>]"

definition medium_splitters :: "splitter list" where
  "medium_splitters =
     [\<lparr>separators = [nl @ nl @ nl, nl @ nl, nl, ''. '', '', '', '' ''],
       chunk_size = 1800, chunk_overlap = 250\<rparr>,
      \<lparr>separators = [nl @ nl, nl, ''. '', '', '', '' ''],
       chunk_size = 1000, chunk_overlap = 150\<rparr>]"

definition small_splitter :: splitter where
  "small_splitter =
     \<lparr>separators = [nl @ nl @ nl, nl @ nl, nl, ''. '', ''; '', '', '', '' ''],
      chunk_size = 1000, chunk_overlap = 150\<rparr>"

definition aggressive_splitter :: splitter where
  "aggressive_splitter =
     \<lparr>separators = [nl, ''. '', ''; '', '', '', '' '', []],
      chunk_size = 800, chunk_overlap = 100\<rparr>"

definition enhanced_metadata ::
  "(string \<rightharpoonup> meta_value) \<Rightarrow> string \<Rightarrow> nat \<Rightarrow> nat \<Rightarrow> string \<Rightarrow> doc \<Rightarrow> (string \<rightharpoonup> meta_value)" where
  "enhanced_metadata doc_metadata chunk_type j total_chunks category chunk =
     doc_metadata(''chunk_type'' \<mapsto> Str chunk_type,
                  ''chunk_index'' \<mapsto> Num j,
                  ''total_chunks'' \<mapsto> Num total_chunks,
                  ''doc_size_category'' \<mapsto> Str category,
                  ''chunk_size'' \<mapsto> Num (length (page_content chunk)))"

text \<open>
  The loop \<open>for j, chunk in enumerate(chunks)\<close>: \<open>j\<close> is the running index, \<open>total_chunks\<close> is
  \<open>len(chunks)\<close> of the whole tier, and each stamped chunk is appended to \<open>all_chunks\<close>.
\<close>

fun stamp_chunks ::
  "(string \<rightharpoonup> meta_value) \<Rightarrow> string \<Rightarrow> string \<Rightarrow> nat \<Rightarrow> nat \<Rightarrow> doc list \<Rightarrow> doc list \<Rightarrow> doc list" where
  "stamp_chunks doc_metadata chunk_type category total_chunks j [] all_chunks = all_chunks"
| "stamp_chunks doc_metadata chunk_type category total_chunks j (chunk # chunks) all_chunks =
     stamp_chunks doc_metadata chunk_type category total_chunks (Suc j) chunks
       (all_chunks @
        [chunk\<lparr>metadata := enhanced_metadata doc_metadata chunk_type j total_chunks category chunk\<rparr>])"

text \<open>
  The loop \<open>for i, splitter in enumerate(splitters)\<close> of the large and the medium branch;
  the tier name is read from the list of names at index \<open>i\<close>, which is always in range
  there (three names for three splitters, two for two).
\<close>

fun tier_loop ::
  "split_text \<Rightarrow> doc \<Rightarrow> string list \<Rightarrow> string \<Rightarrow> nat \<Rightarrow> splitter list \<Rightarrow> doc list \<Rightarrow> doc list" where
  "tier_loop st d names category i [] all_chunks = all_chunks"
| "tier_loop st d names category i (sp # splitters) all_chunks =
     (let chunk_type = names ! i;
          chunks = split_documents st sp d
      in tier_loop st d names category (Suc i) splitters
           (stamp_chunks (metadata d) chunk_type category (length chunks) 0 chunks all_chunks))"

text \<open>The body of the loop over the documents.\<close>

definition chunk_document :: "split_text \<Rightarrow> doc \<Rightarrow> doc list \<Rightarrow> doc list" where
  "chunk_document st d all_chunks =
     (let doc_size = length (page_content d)
      in if doc_size > 50000
         then tier_loop st d [''broad'', ''detailed'', ''specific''] ''large'' 0
                large_splitters all_chunks
         else if doc_size > 5000
         then tier_loop st d [''standard'', ''detailed''] ''medium'' 0
                medium_splitters all_chunks
         else
           (let chunks = split_documents st small_splitter d;
                chunks = (if length chunks = 1 \<and> doc_size > 1000
                          then split_documents st aggressive_splitter d
                          else chunks)
            in stamp_chunks (metadata d) ''standard'' ''small'' (length chunks) 0 chunks
                 all_chunks))"

definition create_optimized_chunks_for_large_docs :: "split_text \<Rightarrow> doc list \<Rightarrow> doc list" where
  "create_optimized_chunks_for_large_docs st documents =
     foldl (\<lambda>all_chunks d. chunk_document st d all_chunks) [] documents"


section \<open>utils.py: the content hash\<close>

text \<open>
  \<open>hashlib.md5\<close> belongs to Python's standard library, not to the repository. Its digest
  is the MD5 function of RFC 1321, written out here on 32-bit words: the message is padded
  with the byte 0x80, zero bytes up to 56 modulo 64 and its length in bits as 64-bit
  little-endian number, and is then absorbed in blocks of 64 bytes.
\<close>

type_synonym byte = "8 word"
type_synonym u32 = "32 word"

definition md5_K :: "u32 list" where
  "md5_K = [0xD76AA478, 0xE8C7B756, 0x242070DB, 0xC1BDCEEE, 0xF57C0FAF, 0x4787C62A, 0xA8304613,
    0xFD469501, 0x698098D8, 0x8B44F7AF, 0xFFFF5BB1, 0x895CD7BE, 0x6B901122, 0xFD987193,
    0xA679438E, 0x49B40821, 0xF61E2562, 0xC040B340, 0x265E5A51, 0xE9B6C7AA, 0xD62F105D,
    0x02441453, 0xD8A1E681, 0xE7D3FBC8, 0x21E1CDE6, 0xC33707D6, 0xF4D50D87, 0x455A14ED,
    0xA9E3E905, 0xFCEFA3F8, 0x676F02D9, 0x8D2A4C8A, 0xFFFA3942, 0x8771F681, 0x6D9D6122,
    0xFDE5380C, 0xA4BEEA44, 0x4BDECFA9, 0xF6BB4B60, 0xBEBFBC70, 0x289B7EC6, 0xEAA127FA,
    0xD4EF3085, 0x04881D05, 0xD9D4D039, 0xE6DB99E5, 0x1FA27CF8, 0xC4AC5665, 0xF4292244,
    0x432AFF97, 0xAB9423A7, 0xFC93A039, 0x655B59C3, 0x8F0CCC92, 0xFFEFF47D, 0x85845DD1,
    0x6FA87E4F, 0xFE2CE6E0, 0xA3014314, 0x4E0811A1, 0xF7537E82, 0xBD3AF235, 0x2AD7D2BB,
    0xEB86D391]"

definition md5_S :: "nat list" where
  "md5_S = [7, 12, 17, 22, 7, 12, 17, 22, 7, 12, 17, 22, 7, 12, 17, 22, 5, 9, 14, 20, 5, 9, 14, 20,
    5, 9, 14, 20, 5, 9, 14, 20, 4, 11, 16, 23, 4, 11, 16, 23, 4, 11, 16, 23, 4, 11, 16,
    23, 6, 10, 15, 21, 6, 10, 15, 21, 6, 10, 15, 21, 6, 10, 15, 21]"

definition md5_F :: "nat \<Rightarrow> u32 \<Rightarrow> u32 \<Rightarrow> u32 \<Rightarrow> u32" where
  "md5_F i b c d =
     (if i < 16 then (b AND c) OR (NOT b AND d)
      else if i < 32 then (d AND b) OR (NOT d AND c)
      else if i < 48 then b XOR c XOR d
      else c XOR (b OR NOT d))"

definition md5_g :: "nat \<Rightarrow> nat" where
  "md5_g i =
     (if i < 16 then i
      else if i < 32 then (5 * i + 1) mod 16
      else if i < 48 then (3 * i + 5) mod 16
      else (7 * i) mod 16)"

definition md5_step :: "u32 list \<Rightarrow> nat \<Rightarrow> u32 \<times> u32 \<times> u32 \<times> u32 \<Rightarrow> u32 \<times> u32 \<times> u32 \<times> u32" where
  "md5_step M i = (\<lambda>(a, b, c, d).
     (d, b + word_rotl (md5_S ! i) (a + md5_F i b c d + md5_K ! i + M ! md5_g i), b, c))"

fun le_word :: "byte list \<Rightarrow> u32" where
  "le_word [] = 0"
| "le_word (x # xs) = ucast x + push_bit 8 (le_word xs)"

fun block_words :: "nat \<Rightarrow> byte list \<Rightarrow> u32 list" where
  "block_words 0 bs = []"
| "block_words (Suc n) bs = le_word (take 4 bs) # block_words n (drop 4 bs)"

definition md5_block :: "u32 \<times> u32 \<times> u32 \<times> u32 \<Rightarrow> byte list \<Rightarrow> u32 \<times> u32 \<times> u32 \<times> u32" where
  "md5_block st blk =
     (case st of (a0, b0, c0, d0) \<Rightarrow>
        case fold (md5_step (block_words 16 blk)) [0..<64] st of (a, b, c, d) \<Rightarrow>
          (a0 + a, b0 + b, c0 + c, d0 + d))"

fun md5_blocks :: "nat \<Rightarrow> u32 \<times> u32 \<times> u32 \<times> u32 \<Rightarrow> byte list \<Rightarrow> u32 \<times> u32 \<times> u32 \<times> u32" where
  "md5_blocks 0 st bs = st"
| "md5_blocks (Suc n) st bs = md5_blocks n (md5_block st (take 64 bs)) (drop 64 bs)"

fun le_bytes :: "nat \<Rightarrow> 'a::len word \<Rightarrow> byte list" where
  "le_bytes 0 w = []"
| "le_bytes (Suc n) w = ucast w # le_bytes n (drop_bit 8 w)"

definition md5_pad :: "byte list \<Rightarrow> byte list" where
  "md5_pad bs = bs @ [0x80] @ replicate ((119 - length bs mod 64) mod 64) 0
                @ le_bytes 8 (of_nat (8 * length bs) :: 64 word)"

definition md5_digest :: "byte list \<Rightarrow> byte list" where
  "md5_digest bs =
     (let p = md5_pad bs in
      case md5_blocks (length p div 64) (0x67452301, 0xEFCDAB89, 0x98BADCFE, 0x10325476) p of
        (a, b, c, d) \<Rightarrow> concat (map (\<lambda>w. le_bytes 4 w) [a, b, c, d]))"

definition hex_digit :: "nat \<Rightarrow> char" where
  "hex_digit n = ''0123456789abcdef'' ! n"

definition hexdigest :: "byte list \<Rightarrow> string" where
  "hexdigest bs = concat (map (\<lambda>b. [hex_digit (unat b div 16), hex_digit (unat b mod 16)]) bs)"

text \<open>
  The hash object of \<open>get_file_hash\<close>: \<open>update\<close> appends to the bytes seen so far,
  \<open>hexdigest\<close> prints the digest of all of them.
\<close>

definition md5_update :: "byte list \<Rightarrow> byte list \<Rightarrow> byte list" where
  "md5_update hash_md5 chunk = hash_md5 @ chunk"

definition md5_hexdigest :: "byte list \<Rightarrow> string" where
  "md5_hexdigest hash_md5 = hexdigest (md5_digest hash_md5)"

text \<open>\<open>iter(lambda: f.read(4096), b"")\<close>: the file in pieces of 4096 bytes, up to its end.\<close>

function read_chunks :: "byte list \<Rightarrow> byte list list" where
  "read_chunks bs =
     (if take 4096 bs = [] then [] else take 4096 bs # read_chunks (drop 4096 bs))"
  by pat_completeness auto
termination
  by (relation "measure length") auto

declare read_chunks.simps [simp del]

datatype error = OSError | LibraryError

text \<open>
  The files that can be opened for reading are a partial map from paths to contents;
  \<open>open\<close> raises on every other path.
\<close>

definition get_file_hash :: "(string \<rightharpoonup> byte list) \<Rightarrow> string \<Rightarrow> error + string" where
  "get_file_hash disk file_path =
     (case disk file_path of
        None \<Rightarrow> Inl OSError
      | Some bs \<Rightarrow> Inr (md5_hexdigest (foldl md5_update [] (read_chunks bs))))"


section \<open>utils.py: paths\<close>

text \<open>
  \<open>os.path.join\<close>, \<open>os.path.basename\<close> and the second component of \<open>os.path.splitext\<close>,
  as \<open>posixpath\<close> computes them: the extension starts at the last dot of the base name,
  unless only dots precede it.
\<close>

definition path_join :: "string \<Rightarrow> string \<Rightarrow> string" where
  "path_join a b =
     (if b \<noteq> [] \<and> hd b = CHR ''/'' then b
      else if a = [] \<or> last a = CHR ''/'' then a @ b
      else a @ ''/'' @ b)"

definition basename :: "string \<Rightarrow> string" where
  "basename p = rev (takeWhile (\<lambda>c. c \<noteq> CHR ''/'') (rev p))"

definition splitext_ext :: "string \<Rightarrow> string" where
  "splitext_ext p =
     (let base = basename p;
          e = takeWhile (\<lambda>c. c \<noteq> CHR ''.'') (rev base);
          stem = rev (drop (Suc (length e)) (rev base))
      in if CHR ''.'' \<in> set base \<and> list_ex (\<lambda>c. c \<noteq> CHR ''.'') stem
         then CHR ''.'' # rev e else [])"

definition supported_extensions :: "string list" where
  "supported_extensions = [''.pdf'', ''.docx'', ''.csv'', ''.xlsx'', ''.txt'']"


section \<open>utils.py: the ledger and the incremental sync\<close>

text \<open>An entry of \<open>processed_files_info.json\<close>.\<close>

record file_info =
  hash :: string
  name :: string
  extension :: string
  folder :: string

text \<open>
  Everything the sync reads and writes outside of its own variables: whether the documents
  folder exists, what \<open>os.walk\<close> yields for it (each directory with its file names), the
  readable files, their modification times (which no function of the program reads), the
  paths that cannot be opened for writing, the ledger file (an absent or unreadable file
  loads as the empty dictionary) and the saved vector store (\<open>None\<close>: nothing to load).
  Saving the ledger and the vector store is taken to succeed.
\<close>

record world =
  folder_exists :: bool
  walk :: "(string \<times> string list) list"
  disk :: "string \<rightharpoonup> byte list"
  mtime :: "string \<Rightarrow> nat"
  unwritable :: "string set"
  processed_files_info :: "string \<rightharpoonup> file_info"
  vectorstore :: "doc list option"

text \<open>
  What the program takes from outside: the configured folder, \<open>os.path.relpath\<close>, the
  text extraction behind \<open>extract_text_from_file_path\<close> (format libraries; a function of
  the path and of the file's bytes that returns a text or raises) and langchain's
  \<open>split_text\<close>.
\<close>

record env =
  documents_folder :: string
  relpath :: "string \<Rightarrow> string \<Rightarrow> string"
  extract_text_from_file_path :: "string \<Rightarrow> byte list option \<Rightarrow> error + string"
  split_text :: "splitter \<Rightarrow> string \<Rightarrow> string list"

text \<open>\<open>os.makedirs\<close> on the missing documents folder: it exists afterwards, and is empty.\<close>

definition makedirs :: "env \<Rightarrow> world \<Rightarrow> world" where
  "makedirs E w = w\<lparr>folder_exists := True, walk := [(documents_folder E, [])]\<rparr>"

text \<open>
  The two nested loops that fill the dictionary \<open>current_files\<close>. A dictionary that is
  iterated later is an association list: \<^const>\<open>AList.update\<close> overwrites the value of a
  key at its place and appends a new key, as Python's dictionaries do. A file whose hash
  cannot be computed is left out.
\<close>

fun scan_files ::
  "env \<Rightarrow> (string \<rightharpoonup> byte list) \<Rightarrow> string \<Rightarrow> string list \<Rightarrow> (string \<times> file_info) list
     \<Rightarrow> (string \<times> file_info) list" where
  "scan_files E dsk root_dir [] current_files = current_files"
| "scan_files E dsk root_dir (file # files) current_files =
     (let file_path = path_join root_dir file;
          file_ext = lower (splitext_ext file)
      in if file_ext \<in> set supported_extensions
         then (case get_file_hash dsk file_path of
                 Inl e \<Rightarrow> scan_files E dsk root_dir files current_files
               | Inr file_hash \<Rightarrow>
                   scan_files E dsk root_dir files
                     (AList.update file_path
                        \<lparr>hash = file_hash, name = file, extension = file_ext,
                         folder = relpath E root_dir (documents_folder E)\<rparr>
                        current_files))
         else scan_files E dsk root_dir files current_files)"

fun scan_walk ::
  "env \<Rightarrow> (string \<rightharpoonup> byte list) \<Rightarrow> (string \<times> string list) list \<Rightarrow> (string \<times> file_info) list
     \<Rightarrow> (string \<times> file_info) list" where
  "scan_walk E dsk [] current_files = current_files"
| "scan_walk E dsk ((root_dir, files) # rest) current_files =
     scan_walk E dsk rest (scan_files E dsk root_dir files current_files)"

definition new_or_changed ::
  "(string \<rightharpoonup> file_info) \<Rightarrow> string \<times> file_info \<Rightarrow> bool" where
  "new_or_changed ledger = (\<lambda>(file_path, info).
     (case ledger file_path of None \<Rightarrow> True | Some entry \<Rightarrow> hash entry \<noteq> hash info))"

definition new_or_changed_files ::
  "(string \<times> file_info) list \<Rightarrow> (string \<rightharpoonup> file_info) \<Rightarrow> string list" where
  "new_or_changed_files current_files ledger =
     map fst (filter (new_or_changed ledger) current_files)"

text \<open>
  The loop over the new or changed files. Everything in its body is inside \<open>try\<close>: a raise
  of the extraction, like a missing key of \<open>current_files\<close>, skips the file.
\<close>

fun extract_new_documents ::
  "env \<Rightarrow> (string \<rightharpoonup> byte list) \<Rightarrow> (string \<times> file_info) list \<Rightarrow> string list \<Rightarrow> doc list
     \<Rightarrow> doc list" where
  "extract_new_documents E dsk current_files [] new_documents = new_documents"
| "extract_new_documents E dsk current_files (file_path # rest) new_documents =
     (case extract_text_from_file_path E file_path (dsk file_path) of
        Inl e \<Rightarrow> extract_new_documents E dsk current_files rest new_documents
      | Inr document_text \<Rightarrow>
          if strip_nonempty document_text
          then (case map_of current_files file_path of
                  None \<Rightarrow> extract_new_documents E dsk current_files rest new_documents
                | Some info \<Rightarrow>
                    extract_new_documents E dsk current_files rest
                      (new_documents @
                       [\<lparr>page_content = document_text,
                         metadata = [''source'' \<mapsto> Str (name info),
                                     ''file_path'' \<mapsto> Str file_path,
                                     ''file_type'' \<mapsto> Str (extension info),
                                     ''folder'' \<mapsto> Str (folder info)]\<rparr>]))
          else extract_new_documents E dsk current_files rest new_documents)"

text \<open>
  \<open>existing_vectorstore.add_documents\<close> appends to the store that was loaded,
  \<open>FAISS.from_documents\<close> makes a new one.
\<close>

definition add_to_vectorstore :: "doc list option \<Rightarrow> doc list \<Rightarrow> doc list option" where
  "add_to_vectorstore existing_vectorstore doc_chunks =
     (case existing_vectorstore of
        Some v \<Rightarrow> Some (v @ doc_chunks)
      | None \<Rightarrow> Some doc_chunks)"

record processing_info =
  total_documents :: int
  new_documents :: int
  reused_documents :: int

text \<open>
  The sync returns \<open>(new_documents, final_vectorstore, processing_info)\<close> (the information
  is the empty dictionary, \<open>None\<close> here, when the folder had to be created) and leaves the
  world changed.
\<close>

definition current_files_of :: "env \<Rightarrow> world \<Rightarrow> (string \<times> file_info) list" where
  "current_files_of E w = scan_walk E (disk w) (walk w) []"

definition load_documents_from_folder_incremental ::
  "env \<Rightarrow> world \<Rightarrow> (doc list \<times> doc list option \<times> processing_info option) \<times> world" where
  "load_documents_from_folder_incremental E w =
     (if \<not> folder_exists w then (([], None, None), makedirs E w)
      else
        let existing_vectorstore = vectorstore w;
            ledger = processed_files_info w;
            current_files = current_files_of E w;
            selected = new_or_changed_files current_files ledger;
            new_docs = extract_new_documents E (disk w) current_files selected [];
            total_docs = int (length current_files);
            info = \<lparr>total_documents = total_docs,
                    new_documents = int (length new_docs),
                    reused_documents = total_docs - int (length new_docs)\<rparr>
        in if new_docs \<noteq> []
           then
             (let new_doc_chunks =
                    create_optimized_chunks_for_large_docs (split_text E) new_docs;
                  final_vectorstore = add_to_vectorstore existing_vectorstore new_doc_chunks
              in ((new_docs, final_vectorstore, Some info),
                  w\<lparr>vectorstore := final_vectorstore,
                    processed_files_info := ledger ++ map_of current_files\<rparr>))
           else ((new_docs, existing_vectorstore, Some info), w))"


section \<open>utils.py: the upload intake\<close>

text \<open>An uploaded file: its name (a plain file name) and its bytes.\<close>

record uploaded_file =
  upload_name :: string
  getbuffer :: "byte list"

text \<open>
  Writing a file into a directory: its bytes can be read back at its path, and \<open>os.walk\<close>
  lists its name under that directory from then on.
\<close>

definition add_listing ::
  "string \<Rightarrow> string \<Rightarrow> (string \<times> string list) list \<Rightarrow> (string \<times> string list) list" where
  "add_listing root_dir file wk =
     (case map_of wk root_dir of
        None \<Rightarrow> wk @ [(root_dir, [file])]
      | Some files \<Rightarrow>
          if file \<in> set files then wk else AList.update root_dir (files @ [file]) wk)"

definition write_file :: "string \<Rightarrow> string \<Rightarrow> byte list \<Rightarrow> world \<Rightarrow> world" where
  "write_file root_dir file bs w =
     w\<lparr>disk := (disk w)(path_join root_dir file \<mapsto> bs),
       walk := add_listing root_dir file (walk w)\<rparr>"

text \<open>
  The loop over the uploaded files. A file that cannot be written raises before it is
  appended to \<open>saved_files\<close>; a raise of the extraction comes after that.
\<close>

fun save_uploaded_files ::
  "env \<Rightarrow> uploaded_file list \<Rightarrow> string list \<times> doc list \<times> world
     \<Rightarrow> string list \<times> doc list \<times> world" where
  "save_uploaded_files E [] acc = acc"
| "save_uploaded_files E (u # us) (saved_files, processed_documents, w) =
     (let file_path = path_join (documents_folder E) (upload_name u)
      in if file_path \<in> unwritable w
         then save_uploaded_files E us (saved_files, processed_documents, w)
         else
           (let w' = write_file (documents_folder E) (upload_name u) (getbuffer u) w;
                saved_files' = saved_files @ [file_path]
            in case extract_text_from_file_path E file_path (disk w' file_path) of
                 Inl e \<Rightarrow> save_uploaded_files E us (saved_files', processed_documents, w')
               | Inr document_text \<Rightarrow>
                   if strip_nonempty document_text
                   then save_uploaded_files E us
                          (saved_files',
                           processed_documents @
                           [\<lparr>page_content = document_text,
                             metadata = [''source'' \<mapsto> Str (upload_name u),
                                         ''file_path'' \<mapsto> Str file_path,
                                         ''file_type'' \<mapsto>
                                           Str (lower (splitext_ext (upload_name u))),
                                         ''folder'' \<mapsto> Str []]\<rparr>],
                           w')
                   else save_uploaded_files E us (saved_files', processed_documents, w')))"

text \<open>
  The loop that enters every saved file into the ledger. It is outside of any \<open>try\<close>:
  a hash that cannot be computed ends the whole call.
\<close>

fun record_saved_files ::
  "(string \<rightharpoonup> byte list) \<Rightarrow> string list \<Rightarrow> (string \<rightharpoonup> file_info)
     \<Rightarrow> error + (string \<rightharpoonup> file_info)" where
  "record_saved_files dsk [] ledger = Inr ledger"
| "record_saved_files dsk (file_path # rest) ledger =
     (case get_file_hash dsk file_path of
        Inl e \<Rightarrow> Inl e
      | Inr file_hash \<Rightarrow>
          record_saved_files dsk rest
            (ledger(file_path \<mapsto>
               \<lparr>hash = file_hash, name = basename file_path,
                extension = lower (splitext_ext file_path), folder = []\<rparr>)))"

text \<open>
  \<open>process_uploaded_files\<close> returns the number of processed documents with the vector
  store, or raises; the world it leaves is returned in both cases.
\<close>

definition process_uploaded_files ::
  "env \<Rightarrow> uploaded_file list \<Rightarrow> world \<Rightarrow> (error + nat \<times> doc list option) \<times> world" where
  "process_uploaded_files E uploaded_files w =
     (let w0 = (if \<not> folder_exists w then makedirs E w else w)
      in case save_uploaded_files E uploaded_files ([], [], w0) of
           (saved_files, processed_documents, w1) \<Rightarrow>
             if processed_documents \<noteq> []
             then
               (let doc_chunks =
                      create_optimized_chunks_for_large_docs (split_text E) processed_documents;
                    final_vectorstore = add_to_vectorstore (vectorstore w1) doc_chunks;
                    w2 = w1\<lparr>vectorstore := final_vectorstore\<rparr>
                in case record_saved_files (disk w2) saved_files (processed_files_info w2) of
                     Inl e \<Rightarrow> (Inl e, w2)
                   | Inr ledger \<Rightarrow>
                       (Inr (length processed_documents, final_vectorstore),
                        w2\<lparr>processed_files_info := ledger\<rparr>))
             else (Inr (0, vectorstore w1), w1))"


section \<open>Notions used to state the properties\<close>

text \<open>A question mentions one of several words: one of them occurs in its lowercased text.\<close>

definition mentions_any :: "string list \<Rightarrow> string \<Rightarrow> bool" where
  "mentions_any ws question = list_ex (\<lambda>w. str_in w (lower question)) ws"

definition mentions :: "string \<Rightarrow> string \<Rightarrow> bool" where
  "mentions w question = str_in w (lower question)"

text \<open>The overlap ratio of a chunk for a query, as an exact quotient.\<close>

definition overlap_ratio :: "string \<Rightarrow> doc \<Rightarrow> real" where
  "overlap_ratio query c =
     real (card (meaningful_query_words query \<inter> word_set (page_content c)))
     / real (card (meaningful_query_words query))"

definition chunk_of_text :: "string \<Rightarrow> doc" where
  "chunk_of_text t = \<lparr>page_content = t, metadata = Map.empty\<rparr>"


text \<open>
  The chunks of one tier: the pieces of the document under one splitter, each stamped with
  the tier name, its index, the number of pieces, the size category and its own length.
\<close>

definition tier_chunks :: "split_text \<Rightarrow> doc \<Rightarrow> string \<Rightarrow> string \<Rightarrow> splitter \<Rightarrow> doc list" where
  "tier_chunks st d category chunk_type sp =
     map (\<lambda>(k, c). c\<lparr>metadata := enhanced_metadata (metadata d) chunk_type k
                        (length (st sp (page_content d))) category c\<rparr>)
       (enumerate 0 (split_documents st sp d))"

text \<open>What the size tiers say about a chunk: its tier tag and its text.\<close>

definition tier_view :: "doc \<Rightarrow> meta_value option \<times> string" where
  "tier_view c = (metadata c ''chunk_type'', page_content c)"

definition tagged :: "string \<Rightarrow> string list \<Rightarrow> (meta_value option \<times> string) list" where
  "tagged tier pieces = map (\<lambda>t. (Some (Str tier), t)) pieces"

definition chunking :: "string list \<Rightarrow> nat \<Rightarrow> nat \<Rightarrow> splitter" where
  "chunking seps target overlap =
     \<lparr>separators = seps, chunk_size = target, chunk_overlap = overlap\<rparr>"

text \<open>
  The tiering as the specification words it: three chunkings at 4000/2000/1200 with
  overlaps 400/300/200 tagged broad/detailed/specific above 50,000 characters; two at
  1800/1000 with overlaps 250/150 tagged standard/detailed above 5,000; one at 1000/150
  tagged standard otherwise, replaced by a chunking at 800/100 with finer separators when
  it yields exactly one chunk for more than 1000 characters.
\<close>

definition tiered_chunking_spec :: "split_text \<Rightarrow> string \<Rightarrow> (meta_value option \<times> string) list" where
  "tiered_chunking_spec st text =
     (if length text > 50000
      then tagged ''broad''
             (st (chunking [nl @ nl @ nl @ nl, nl @ nl @ nl, nl @ nl, nl, ''. '', '', '', '' '']
                    4000 400) text)
         @ tagged ''detailed''
             (st (chunking [nl @ nl @ nl, nl @ nl, nl, ''. '', '', '', '' ''] 2000 300) text)
         @ tagged ''specific''
             (st (chunking [nl @ nl, nl, ''. '', '', '', '' ''] 1200 200) text)
      else if length text > 5000
      then tagged ''standard''
             (st (chunking [nl @ nl @ nl, nl @ nl, nl, ''. '', '', '', '' ''] 1800 250) text)
         @ tagged ''detailed''
             (st (chunking [nl @ nl, nl, ''. '', '', '', '' ''] 1000 150) text)
      else if length (st (chunking [nl @ nl @ nl, nl @ nl, nl, ''. '', ''; '', '', '', '' '']
                            1000 150) text) = 1
              \<and> length text > 1000
      then tagged ''standard''
             (st (chunking [nl, ''. '', ''; '', '', '', '' '', []] 800 100) text)
      else tagged ''standard''
             (st (chunking [nl @ nl @ nl, nl @ nl, nl, ''. '', ''; '', '', '', '' ''] 1000 150)
                text))"

definition size_category :: "nat \<Rightarrow> string" where
  "size_category n = (if n > 50000 then ''large'' else if n > 5000 then ''medium'' else ''small'')"

definition tiers_of :: "string \<Rightarrow> string set" where
  "tiers_of category =
     (if category = ''large'' then {''broad'', ''detailed'', ''specific''}
      else if category = ''medium'' then {''standard'', ''detailed''}
      else {''standard''})"

text \<open>Concrete inputs for the chunking engine: a splitter that keeps the first three
  characters as its only piece, a document of 50,001 characters and a short one.\<close>

definition first_three :: split_text where
  "first_three sp t = [take 3 t]"

definition large_doc :: doc where
  "large_doc = \<lparr>page_content = replicate 50001 (CHR ''a''), metadata = Map.empty\<rparr>"

definition short_doc :: doc where
  "short_doc =
     \<lparr>page_content = ''abc'',
      metadata = [''source'' \<mapsto> Str ''a.txt'', ''file_path'' \<mapsto> Str ''docs/a.txt'',
                  ''file_type'' \<mapsto> Str ''.txt'', ''folder'' \<mapsto> Str ''.'']\<rparr>"


text \<open>Notions for the sync and the upload intake.\<close>

text \<open>The files that the sync selects for extraction and chunking in a given world.\<close>

definition selected :: "env \<Rightarrow> world \<Rightarrow> string list" where
  "selected E w = new_or_changed_files (current_files_of E w) (processed_files_info w)"

text \<open>A listed file is scanned: its lowercased extension is supported and its bytes can be read.\<close>

definition scanned :: "env \<Rightarrow> (string \<rightharpoonup> byte list) \<Rightarrow> string \<Rightarrow> string \<Rightarrow> bool" where
  "scanned E dsk root_dir file =
     (lower (splitext_ext file) \<in> set supported_extensions
      \<and> dsk (path_join root_dir file) \<noteq> None)"

text \<open>Every entry of the scan records the digest of the bytes found at its path.\<close>

definition hashes_ok :: "(string \<rightharpoonup> byte list) \<Rightarrow> (string \<times> file_info) list \<Rightarrow> bool" where
  "hashes_ok dsk cur =
     (\<forall>(p, info)\<in>set cur. \<exists>bs. dsk p = Some bs \<and> hash info = md5_hexdigest bs)"

text \<open>Bytes read as Latin-1 text.\<close>

definition decode :: "byte list \<Rightarrow> string" where
  "decode bs = map (\<lambda>b. char_of (unat b)) bs"

text \<open>An environment for concrete runs: the folder \<open>docs\<close>, an extraction that decodes the
  bytes of a readable file, and the splitter of the chunking examples.\<close>

definition plain_text_env :: env where
  "plain_text_env =
     \<lparr>documents_folder = ''docs'',
      relpath = (\<lambda>path start. ''.''),
      extract_text_from_file_path =
        (\<lambda>path content. case content of None \<Rightarrow> Inl OSError | Some bs \<Rightarrow> Inr (decode bs)),
      split_text = first_three\<rparr>"

text \<open>A world with the given files in the folder \<open>docs\<close>, an empty ledger and no vector store.\<close>

definition fresh_world :: "(string \<times> byte list) list \<Rightarrow> world" where
  "fresh_world files =
     \<lparr>folder_exists = True,
      walk = [(''docs'', map fst files)],
      disk = map_of (map (\<lambda>(f, bs). (''docs/'' @ f, bs)) files),
      mtime = (\<lambda>path. 0),
      unwritable = {},
      processed_files_info = Map.empty,
      vectorstore = None\<rparr>"

text \<open>Two different files of 128 bytes with the same MD5 digest (a published collision).\<close>

definition collision_a :: "byte list" where
  "collision_a = [0xD1, 0x31, 0xDD, 0x02, 0xC5, 0xE6, 0xEE, 0xC4, 0x69, 0x3D, 0x9A, 0x06, 0x98, 0xAF, 0xF9,
    0x5C, 0x2F, 0xCA, 0xB5, 0x87, 0x12, 0x46, 0x7E, 0xAB, 0x40, 0x04, 0x58, 0x3E, 0xB8,
    0xFB, 0x7F, 0x89, 0x55, 0xAD, 0x34, 0x06, 0x09, 0xF4, 0xB3, 0x02, 0x83, 0xE4, 0x88,
    0x83, 0x25, 0x71, 0x41, 0x5A, 0x08, 0x51, 0x25, 0xE8, 0xF7, 0xCD, 0xC9, 0x9F, 0xD9,
    0x1D, 0xBD, 0xF2, 0x80, 0x37, 0x3C, 0x5B, 0xD8, 0x82, 0x3E, 0x31, 0x56, 0x34, 0x8F,
    0x5B, 0xAE, 0x6D, 0xAC, 0xD4, 0x36, 0xC9, 0x19, 0xC6, 0xDD, 0x53, 0xE2, 0xB4, 0x87,
    0xDA, 0x03, 0xFD, 0x02, 0x39, 0x63, 0x06, 0xD2, 0x48, 0xCD, 0xA0, 0xE9, 0x9F, 0x33,
    0x42, 0x0F, 0x57, 0x7E, 0xE8, 0xCE, 0x54, 0xB6, 0x70, 0x80, 0xA8, 0x0D, 0x1E, 0xC6,
    0x98, 0x21, 0xBC, 0xB6, 0xA8, 0x83, 0x93, 0x96, 0xF9, 0x65, 0x2B, 0x6F, 0xF7, 0x2A,
    0x70]"

definition collision_b :: "byte list" where
  "collision_b = [0xD1, 0x31, 0xDD, 0x02, 0xC5, 0xE6, 0xEE, 0xC4, 0x69, 0x3D, 0x9A, 0x06, 0x98, 0xAF, 0xF9,
    0x5C, 0x2F, 0xCA, 0xB5, 0x07, 0x12, 0x46, 0x7E, 0xAB, 0x40, 0x04, 0x58, 0x3E, 0xB8,
    0xFB, 0x7F, 0x89, 0x55, 0xAD, 0x34, 0x06, 0x09, 0xF4, 0xB3, 0x02, 0x83, 0xE4, 0x88,
    0x83, 0x25, 0xF1, 0x41, 0x5A, 0x08, 0x51, 0x25, 0xE8, 0xF7, 0xCD, 0xC9, 0x9F, 0xD9,
    0x1D, 0xBD, 0x72, 0x80, 0x37, 0x3C, 0x5B, 0xD8, 0x82, 0x3E, 0x31, 0x56, 0x34, 0x8F,
    0x5B, 0xAE, 0x6D, 0xAC, 0xD4, 0x36, 0xC9, 0x19, 0xC6, 0xDD, 0x53, 0xE2, 0x34, 0x87,
    0xDA, 0x03, 0xFD, 0x02, 0x39, 0x63, 0x06, 0xD2, 0x48, 0xCD, 0xA0, 0xE9, 0x9F, 0x33,
    0x42, 0x0F, 0x57, 0x7E, 0xE8, 0xCE, 0x54, 0xB6, 0x70, 0x80, 0x28, 0x0D, 0x1E, 0xC6,
    0x98, 0x21, 0xBC, 0xB6, 0xA8, 0x83, 0x93, 0x96, 0xF9, 0x65, 0xAB, 0x6F, 0xF7, 0x2A,
    0x70]"

text \<open>The path under which an uploaded file is saved.\<close>

definition upload_path :: "env \<Rightarrow> uploaded_file \<Rightarrow> string" where
  "upload_path E u = path_join (documents_folder E) (upload_name u)"

text \<open>The paths of the uploaded files that could be written.\<close>

definition saved_paths :: "env \<Rightarrow> world \<Rightarrow> uploaded_file list \<Rightarrow> string list" where
  "saved_paths E w ups = filter (\<lambda>p. p \<notin> unwritable w) (map (upload_path E) ups)"

text \<open>The document, if any, that an uploaded file contributes once it is saved.\<close>

definition uploaded_docs :: "env \<Rightarrow> uploaded_file \<Rightarrow> doc list" where
  "uploaded_docs E u =
     (case extract_text_from_file_path E (upload_path E u) (Some (getbuffer u)) of
        Inl e \<Rightarrow> []
      | Inr document_text \<Rightarrow>
          if strip_nonempty document_text
          then [\<lparr>page_content = document_text,
                 metadata = [''source'' \<mapsto> Str (upload_name u),
                             ''file_path'' \<mapsto> Str (upload_path E u),
                             ''file_type'' \<mapsto> Str (lower (splitext_ext (upload_name u))),
                             ''folder'' \<mapsto> Str []]\<rparr>]
          else [])"

text \<open>The documents that an upload contributes: those of the files that could be written.\<close>

definition processed_uploads :: "env \<Rightarrow> world \<Rightarrow> uploaded_file list \<Rightarrow> doc list" where
  "processed_uploads E w ups =
     concat (map (uploaded_docs E) (filter (\<lambda>u. upload_path E u \<notin> unwritable w) ups))"

text \<open>Two small files: the text "hi" and a single space.\<close>

definition hi_bytes :: "byte list" where
  "hi_bytes = [0x68, 0x69]"

definition blank_bytes :: "byte list" where
  "blank_bytes = [0x20]"

text \<open>An upload of the two small files.\<close>

definition two_uploads :: "uploaded_file list" where
  "two_uploads =
     [\<lparr>upload_name = ''a.txt'', getbuffer = hi_bytes\<rparr>,
      \<lparr>upload_name = ''b.txt'', getbuffer = blank_bytes\<rparr>]"



text \<open>A document or chunk identifies its source file: its metadata names the file, its
  path and its folder.\<close>

definition has_provenance :: "doc \<Rightarrow> bool" where
  "has_provenance d =
     (case (metadata d ''source'', metadata d ''file_path'', metadata d ''folder'') of
        (Some (Str n), Some (Str p), Some (Str f)) \<Rightarrow> True
      | _ \<Rightarrow> False)"


section \<open>The relevance gate\<close>

lemma relevant_chunk_exists_iff:
  "relevant_chunk_exists m cs t =
     (\<exists>c\<in>set cs. t \<le> real (card (m \<inter> word_set (page_content c))) / real (card m))"
  by (induction cs) (auto simp: Let_def)

lemma validate_chunk_relevance_iff:
  "validate_chunk_relevance query chunks threshold =
     (chunks \<noteq> [] \<and>
      (meaningful_query_words query = {} \<or>
       (\<exists>c\<in>set chunks.
          threshold \<le> real (card (meaningful_query_words query \<inter> word_set (page_content c)))
                        / real (card (meaningful_query_words query)))))"
  by (simp add: validate_chunk_relevance_def Let_def relevant_chunk_exists_iff)

text \<open>
  Claim C3, as amended. The gate first rejects an empty chunk list. On a non-empty list
  it accepts when the query has no meaningful term, and otherwise accepts exactly when
  some chunk has an overlap ratio of at least the threshold.
\<close>

theorem validate_chunk_relevance_characterisation:
  "validate_chunk_relevance query chunks threshold =
     (chunks \<noteq> [] \<and>
      (meaningful_query_words query = {} \<or>
       (\<exists>c\<in>set chunks. threshold \<le> overlap_ratio query c)))"
  by (simp add: validate_chunk_relevance_def Let_def relevant_chunk_exists_iff
        overlap_ratio_def)

theorem validate_chunk_relevance_characterisation_witness:
  "validate_chunk_relevance ''how to reset a password''
     [chunk_of_text ''Reset the password in the admin console''] (3 / 10)"
proof -
  have "3 / 10 \<le> overlap_ratio ''how to reset a password''
                    (chunk_of_text ''Reset the password in the admin console'')"
    by code_simp
  then show ?thesis
    using validate_chunk_relevance_characterisation
      [of "''how to reset a password''"
          "[chunk_of_text ''Reset the password in the admin console'']" "3 / 10"]
    by simp
qed

text \<open>
  Claim C3 as stated fails: a query of stop words only has no meaningful term, and the
  gate still returns \<open>False\<close> for it on the empty chunk list.
\<close>

theorem validate_stop_words_only_counterexample:
  "meaningful_query_words ''what is the'' = {} \<and>
   \<not> validate_chunk_relevance ''what is the'' [] (3 / 10)"
  by code_simp

text \<open>
  Claim C10. On the empty chunk list the gate returns \<open>False\<close> for every query and every
  threshold, whatever the meaningful terms of the query are.
\<close>

theorem validate_empty_chunks:
  "validate_chunk_relevance query [] threshold = False"
  by (simp add: validate_chunk_relevance_def)

lemma meaningful_pass_the_ticket:
  "meaningful_query_words ''pass the ticket'' = {''pass'', ''ticket''}"
  by code_simp

lemma overlap_pass_ticket:
  "(1 / 4 \<le> real (card ({''pass'', ''ticket''} \<inter> W)) / real (card {''pass'', ''ticket''}))
     = (''pass'' \<in> W \<or> ''ticket'' \<in> W)"
  by (cases "''pass'' \<in> W"; cases "''ticket'' \<in> W") simp_all

text \<open>
  Claim C7, as amended. For the query "pass the ticket" at threshold 0.25 the gate accepts
  exactly when some retrieved chunk has "pass" or "ticket" among its lowercased
  whitespace-separated words. So it rejects chunks that hold neither word, and it accepts a
  chunk in which "pass the ticket" stands as words of their own.
\<close>

theorem pass_the_ticket_gate:
  "validate_chunk_relevance ''pass the ticket'' chunks (1 / 4) =
     (\<exists>c\<in>set chunks. ''pass'' \<in> word_set (page_content c)
                      \<or> ''ticket'' \<in> word_set (page_content c))"
  unfolding validate_chunk_relevance_iff meaningful_pass_the_ticket overlap_pass_ticket
  by auto

theorem pass_the_ticket_gate_witness:
  "validate_chunk_relevance ''pass the ticket''
     [chunk_of_text ''Password spray attacks'',
      chunk_of_text ''A Pass the Ticket attack reuses Kerberos tickets''] (1 / 4)
   \<and> \<not> validate_chunk_relevance ''pass the ticket''
        [chunk_of_text ''Password spray attacks try one password on many accounts''] (1 / 4)"
proof -
  have a: "''pass'' \<in> word_set (page_content
             (chunk_of_text ''A Pass the Ticket attack reuses Kerberos tickets''))"
    by code_simp
  have b: "''pass'' \<notin> word_set (page_content
             (chunk_of_text ''Password spray attacks try one password on many accounts''))
         \<and> ''ticket'' \<notin> word_set (page_content
             (chunk_of_text ''Password spray attacks try one password on many accounts''))"
    by code_simp
  show ?thesis
    using a b
      pass_the_ticket_gate
        [of "[chunk_of_text ''Password spray attacks'',
              chunk_of_text ''A Pass the Ticket attack reuses Kerberos tickets'']"]
      pass_the_ticket_gate
        [of "[chunk_of_text ''Password spray attacks try one password on many accounts'']"]
    by simp
qed

text \<open>
  Claim C7 as stated fails: a chunk can contain the literal substring "pass the ticket"
  without having "pass" or "ticket" as a word, and the gate rejects it.
\<close>

theorem pass_the_ticket_substring_counterexample:
  "str_in ''pass the ticket'' ''bypass the tickets''
   \<and> \<not> validate_chunk_relevance ''pass the ticket''
        [chunk_of_text ''bypass the tickets''] (1 / 4)"
  by code_simp


section \<open>The query rewrite\<close>

text \<open>
  Claim C8. The rewrite appends "post-incident" when the lowercased question mentions
  "after", "post" or "following" but not "incident"; otherwise it appends "investigation"
  when the question mentions "investigate", "analysis" or "review" but not
  "investigation"; otherwise it returns the question unchanged. In every case at most one
  term is appended.
\<close>

theorem enhance_query_rule_table:
  "enhance_query_for_better_retrieval question =
     (if mentions_any [''after'', ''post'', ''following''] question
         \<and> \<not> mentions ''incident'' question
      then question @ '' post-incident''
      else if mentions_any [''investigate'', ''analysis'', ''review''] question
         \<and> \<not> mentions ''investigation'' question
      then question @ '' investigation''
      else question)
   \<and> enhance_query_for_better_retrieval question
       \<in> {question, question @ '' post-incident'', question @ '' investigation''}"
  by (simp add: enhance_query_for_better_retrieval_def enhanced_terms_def Let_def
        mentions_any_def mentions_def)

theorem enhance_query_rule_table_witness:
  "enhance_query_for_better_retrieval ''What to review after a breach?''
     = ''What to review after a breach? post-incident''
   \<and> enhance_query_for_better_retrieval ''Steps to investigate phishing''
     = ''Steps to investigate phishing investigation''
   \<and> enhance_query_for_better_retrieval ''List all vendors'' = ''List all vendors''"
proof -
  have a: "mentions_any [''after'', ''post'', ''following''] ''What to review after a breach?''
           \<and> \<not> mentions ''incident'' ''What to review after a breach?''"
    by code_simp
  have b: "\<not> mentions_any [''after'', ''post'', ''following''] ''Steps to investigate phishing''
           \<and> mentions_any [''investigate'', ''analysis'', ''review'']
               ''Steps to investigate phishing''
           \<and> \<not> mentions ''investigation'' ''Steps to investigate phishing''"
    by code_simp
  have c: "\<not> mentions_any [''after'', ''post'', ''following''] ''List all vendors''
           \<and> \<not> mentions_any [''investigate'', ''analysis'', ''review''] ''List all vendors''"
    by code_simp
  show ?thesis
    using a b c
      enhance_query_rule_table [of "''What to review after a breach?''"]
      enhance_query_rule_table [of "''Steps to investigate phishing''"]
      enhance_query_rule_table [of "''List all vendors''"]
    by simp
qed


section \<open>The chunking engine\<close>

lemma stamp_chunks_append:
  "stamp_chunks md ct cat n j cs acc =
     acc @ map (\<lambda>(k, c). c\<lparr>metadata := enhanced_metadata md ct k n cat c\<rparr>) (enumerate j cs)"
  by (induction cs arbitrary: j acc) simp_all

lemma length_split_documents [simp]:
  "length (split_documents st sp d) = length (st sp (page_content d))"
  by (simp add: split_documents_def)

lemma stamp_chunks_tier:
  "stamp_chunks (metadata d) ct cat (length (st sp (page_content d))) 0
     (split_documents st sp d) acc = acc @ tier_chunks st d cat ct sp"
  by (simp add: stamp_chunks_append tier_chunks_def)

lemma tier_loop_append:
  "tier_loop st d names cat i sps acc =
     acc @ concat (map (\<lambda>(k, sp). tier_chunks st d cat (names ! k) sp) (enumerate i sps))"
  by (induction sps arbitrary: i acc) (simp_all add: Let_def stamp_chunks_tier)

lemma chunk_document_append:
  "chunk_document st d acc = acc @ chunk_document st d []"
  by (simp add: chunk_document_def Let_def tier_loop_append stamp_chunks_tier)

lemma create_chunks_concat_aux:
  "foldl (\<lambda>all_chunks d. chunk_document st d all_chunks) acc docs =
     acc @ concat (map (\<lambda>d. chunk_document st d []) docs)"
proof (induction docs arbitrary: acc)
  case Nil
  then show ?case by simp
next
  case (Cons d docs)
  show ?case
    by (simp add: Cons.IH) (subst chunk_document_append, simp)
qed

lemma create_chunks_concat:
  "create_optimized_chunks_for_large_docs st docs =
     concat (map (\<lambda>d. chunk_document st d []) docs)"
  by (simp add: create_optimized_chunks_for_large_docs_def create_chunks_concat_aux)

lemma chunk_document_tiers:
  "chunk_document st d [] =
     (let n = length (page_content d)
      in if n > 50000
         then tier_chunks st d ''large'' ''broad'' (large_splitters ! 0)
              @ tier_chunks st d ''large'' ''detailed'' (large_splitters ! 1)
              @ tier_chunks st d ''large'' ''specific'' (large_splitters ! 2)
         else if n > 5000
         then tier_chunks st d ''medium'' ''standard'' (medium_splitters ! 0)
              @ tier_chunks st d ''medium'' ''detailed'' (medium_splitters ! 1)
         else if length (st small_splitter (page_content d)) = 1 \<and> n > 1000
         then tier_chunks st d ''small'' ''standard'' aggressive_splitter
         else tier_chunks st d ''small'' ''standard'' small_splitter)"
  by (simp add: chunk_document_def Let_def tier_loop_append stamp_chunks_tier
        large_splitters_def medium_splitters_def enumerate_eq_zip)


lemma tier_view_stamped:
  "map tier_view
     (map (\<lambda>(k, c). c\<lparr>metadata := enhanced_metadata md ct k n cat c\<rparr>)
        (enumerate j (map (\<lambda>t. \<lparr>page_content = t, metadata = md'\<rparr>) pieces)))
   = tagged ct pieces"
  by (induction pieces arbitrary: j)
     (simp_all add: tagged_def tier_view_def enhanced_metadata_def)

lemma tier_view_tier_chunks:
  "map tier_view (tier_chunks st d cat ct sp) = tagged ct (st sp (page_content d))"
  unfolding tier_chunks_def split_documents_def by (rule tier_view_stamped)

lemma tier_view_chunk_document:
  "map tier_view (chunk_document st d []) = tiered_chunking_spec st (page_content d)"
  by (simp add: chunk_document_tiers Let_def tier_view_tier_chunks tiered_chunking_spec_def
        chunking_def large_splitters_def medium_splitters_def small_splitter_def
        aggressive_splitter_def)

lemma in_tier_chunks:
  assumes "c \<in> set (tier_chunks st d cat ct sp)"
  shows "\<exists>j < length (st sp (page_content d)).
           page_content c = st sp (page_content d) ! j
         \<and> metadata c = enhanced_metadata (metadata d) ct j
                           (length (st sp (page_content d))) cat c"
proof -
  from assms obtain k x where kx: "(k, x) \<in> set (enumerate 0 (split_documents st sp d))"
    and c: "c = x\<lparr>metadata := enhanced_metadata (metadata d) ct k
                     (length (st sp (page_content d))) cat x\<rparr>"
    by (auto simp: tier_chunks_def)
  from kx have k: "k < length (st sp (page_content d))"
    and x: "x = split_documents st sp d ! k"
    by (auto simp: in_set_enumerate_eq)
  from k x have "page_content x = st sp (page_content d) ! k"
    by (simp add: split_documents_def)
  with c k show ?thesis
    by (auto simp: enhanced_metadata_def)
qed

lemma in_chunk_document:
  assumes "c \<in> set (chunk_document st d [])"
  shows "\<exists>sp tier. tier \<in> tiers_of (size_category (length (page_content d)))
           \<and> c \<in> set (tier_chunks st d (size_category (length (page_content d))) tier sp)"
  using assms
  by (auto simp: chunk_document_tiers Let_def size_category_def tiers_of_def
           split: if_splits)

text \<open>
  Claim C6. Seen through tier tag and text, the chunks of the engine are, document after
  document, the chunkings that the size tiers prescribe: for more than 50,000 characters
  the pieces at 4000/400 tagged broad, then those at 2000/300 tagged detailed, then those
  at 1200/200 tagged specific, all of the same text and all kept; for more than 5,000
  characters the pieces at 1800/250 tagged standard, then those at 1000/150 tagged
  detailed; otherwise the pieces at 1000/150 tagged standard, or, when that is exactly
  one piece of a text longer than 1000 characters, the pieces at 800/100 under the finer
  separators.
\<close>

theorem size_tiered_chunking:
  "map tier_view (create_optimized_chunks_for_large_docs st docs) =
     concat (map (\<lambda>d. tiered_chunking_spec st (page_content d)) docs)"
  by (simp add: create_chunks_concat map_concat comp_def tier_view_chunk_document)

theorem size_tiered_chunking_witness:
  "map tier_view (create_optimized_chunks_for_large_docs first_three [large_doc, short_doc]) =
     [(Some (Str ''broad''), replicate 3 (CHR ''a'')),
      (Some (Str ''detailed''), replicate 3 (CHR ''a'')),
      (Some (Str ''specific''), replicate 3 (CHR ''a'')),
      (Some (Str ''standard''), ''abc'')]"
  using size_tiered_chunking [of first_three "[large_doc, short_doc]"]
  by (simp add: tiered_chunking_spec_def tagged_def first_three_def large_doc_def
        short_doc_def)


section \<open>The incremental sync and the upload intake\<close>

lemma concat_read_chunks: "concat (read_chunks bs) = bs"
proof (induction bs rule: read_chunks.induct)
  case (1 bs)
  show ?case
  proof (cases "take 4096 bs = []")
    case True
    then show ?thesis by (subst read_chunks.simps) auto
  next
    case False
    with 1 show ?thesis by (subst read_chunks.simps) simp
  qed
qed

lemma foldl_md5_update: "foldl md5_update acc cs = acc @ concat cs"
  by (induction cs arbitrary: acc) (simp_all add: md5_update_def)

lemma get_file_hash_eq:
  "get_file_hash dsk p =
     (case dsk p of None \<Rightarrow> Inl OSError | Some bs \<Rightarrow> Inr (md5_hexdigest bs))"
  by (simp add: get_file_hash_def foldl_md5_update concat_read_chunks split: option.splits)

lemma distinct_scan_files:
  "distinct (map fst cur) \<Longrightarrow> distinct (map fst (scan_files E dsk r fs cur))"
  by (induction fs arbitrary: cur) (auto simp: Let_def distinct_update split: sum.splits)

lemma distinct_scan_walk:
  "distinct (map fst cur) \<Longrightarrow> distinct (map fst (scan_walk E dsk wk cur))"
  by (induction wk arbitrary: cur) (auto simp: distinct_scan_files)

lemma keys_scan_files:
  "fst ` set (scan_files E dsk r fs cur) =
     fst ` set cur \<union> {path_join r f | f. f \<in> set fs \<and> scanned E dsk r f}"
proof (induction fs arbitrary: cur)
  case Nil
  then show ?case by simp
next
  case (Cons f fs)
  show ?case
  proof (cases "scanned E dsk r f")
    case True
    then obtain bs where bs: "dsk (path_join r f) = Some bs"
      and ext: "lower (splitext_ext f) \<in> set supported_extensions"
      by (auto simp: scanned_def)
    have "scan_files E dsk r (f # fs) cur =
            scan_files E dsk r fs
              (AList.update (path_join r f)
                 \<lparr>hash = md5_hexdigest bs, name = f, extension = lower (splitext_ext f),
                  folder = relpath E r (documents_folder E)\<rparr> cur)"
      using bs ext by (simp add: Let_def get_file_hash_eq)
    then show ?thesis
      using True by (auto simp: Cons.IH dom_update)
  next
    case False
    then have "scan_files E dsk r (f # fs) cur = scan_files E dsk r fs cur"
      by (auto simp: Let_def get_file_hash_eq scanned_def split: option.splits)
    then show ?thesis
      using False by (auto simp: Cons.IH)
  qed
qed

lemma keys_scan_walk:
  "fst ` set (scan_walk E dsk wk cur) =
     fst ` set cur \<union> {path_join r f | r f fs. (r, fs) \<in> set wk \<and> f \<in> set fs \<and> scanned E dsk r f}"
proof (induction wk arbitrary: cur)
  case Nil
  then show ?case by simp
next
  case (Cons a wk)
  obtain r fs where a: "a = (r, fs)" by (cases a)
  show ?case unfolding a
    by (simp add: Cons.IH keys_scan_files) blast
qed

lemma hashes_ok_update:
  "hashes_ok dsk cur \<Longrightarrow> dsk p = Some bs \<Longrightarrow> hash info = md5_hexdigest bs
     \<Longrightarrow> hashes_ok dsk (AList.update p info cur)"
  unfolding hashes_ok_def
  by (induction cur) (auto split: if_splits)

lemma hashes_ok_scan_files:
  "hashes_ok dsk cur \<Longrightarrow> hashes_ok dsk (scan_files E dsk r fs cur)"
proof (induction fs arbitrary: cur)
  case Nil
  then show ?case by simp
next
  case (Cons f fs)
  show ?case
  proof (cases "dsk (path_join r f)")
    case None
    with Cons show ?thesis by (simp add: Let_def get_file_hash_eq)
  next
    case (Some bs)
    with Cons show ?thesis
      by (auto simp: Let_def get_file_hash_eq intro!: Cons.IH hashes_ok_update)
  qed
qed

lemma hashes_ok_scan_walk:
  "hashes_ok dsk cur \<Longrightarrow> hashes_ok dsk (scan_walk E dsk wk cur)"
  by (induction wk arbitrary: cur) (auto simp: hashes_ok_scan_files)

lemma hashes_ok_current: "hashes_ok (disk w) (current_files_of E w)"
  unfolding current_files_of_def by (rule hashes_ok_scan_walk) (simp add: hashes_ok_def)

lemma distinct_current: "distinct (map fst (current_files_of E w))"
  by (simp add: current_files_of_def distinct_scan_walk)

lemma keys_current:
  "fst ` set (current_files_of E w) =
     {path_join r f | r f fs. (r, fs) \<in> set (walk w) \<and> f \<in> set fs \<and> scanned E (disk w) r f}"
  by (simp add: current_files_of_def keys_scan_walk)

lemma selected_iff:
  "p \<in> set (selected E w) \<longleftrightarrow>
     (\<exists>info. (p, info) \<in> set (current_files_of E w)
        \<and> (case processed_files_info w p of None \<Rightarrow> True
            | Some entry \<Rightarrow> hash entry \<noteq> hash info))"
  by (force simp: selected_def new_or_changed_files_def new_or_changed_def)

lemma map_of_current:
  "(p, info) \<in> set (current_files_of E w) \<longleftrightarrow> map_of (current_files_of E w) p = Some info"
  using distinct_current [of E w] by (auto dest: map_of_SomeD)

lemma current_hash:
  assumes "map_of (current_files_of E w) p = Some info"
  shows "\<exists>bs. disk w p = Some bs \<and> hash info = md5_hexdigest bs"
  using hashes_ok_current [of w E] assms
  by (auto simp: hashes_ok_def dest!: map_of_SomeD)

lemma current_dom:
  assumes "(r, fs) \<in> set (walk w)" "f \<in> set fs" "scanned E (disk w) r f"
  shows "\<exists>info. map_of (current_files_of E w) (path_join r f) = Some info"
proof -
  have "path_join r f \<in> fst ` set (current_files_of E w)"
    unfolding keys_current using assms by blast
  then show ?thesis
    by (auto simp: map_of_current)
qed

lemma selected_listed:
  assumes "(r, fs) \<in> set (walk w)" "f \<in> set fs"
    and "lower (splitext_ext f) \<in> set supported_extensions"
    and "disk w (path_join r f) = Some bs"
  shows "path_join r f \<in> set (selected E w) \<longleftrightarrow>
           (case processed_files_info w (path_join r f) of
              None \<Rightarrow> True
            | Some entry \<Rightarrow> hash entry \<noteq> md5_hexdigest bs)"
proof -
  have "scanned E (disk w) r f"
    using assms by (simp add: scanned_def)
  from current_dom [OF assms(1,2) this] obtain info
    where info: "map_of (current_files_of E w) (path_join r f) = Some info" by blast
  from current_hash [OF info] assms(4) have "hash info = md5_hexdigest bs" by simp
  with info show ?thesis
    by (auto simp: selected_iff map_of_current split: option.splits)
qed

lemma current_files_mtime [simp]:
  "current_files_of E (w\<lparr>mtime := m\<rparr>) = current_files_of E w"
  by (simp add: current_files_of_def)

lemma selected_mtime: "selected E (w\<lparr>mtime := m\<rparr>) = selected E w"
  by (simp add: selected_def)

lemma sync_mtime:
  "fst (load_documents_from_folder_incremental E (w\<lparr>mtime := m\<rparr>))
     = fst (load_documents_from_folder_incremental E w)"
  by (simp add: load_documents_from_folder_incremental_def Let_def)

lemma extract_nil [simp]: "extract_new_documents E dsk cur [] acc = acc"
  by simp

lemma sync_new_docs:
  "folder_exists w \<Longrightarrow>
   fst (fst (load_documents_from_folder_incremental E w)) =
     extract_new_documents E (disk w) (current_files_of E w) (selected E w) []"
  by (simp add: load_documents_from_folder_incremental_def Let_def selected_def)

lemma sync_ledger:
  "processed_files_info (snd (load_documents_from_folder_incremental E w)) =
     (if fst (fst (load_documents_from_folder_incremental E w)) = []
      then processed_files_info w
      else processed_files_info w ++ map_of (current_files_of E w))"
  by (simp add: load_documents_from_folder_incremental_def Let_def makedirs_def)

lemma selected_after_update:
  "new_or_changed_files (current_files_of E w) (L ++ map_of (current_files_of E w)) = []"
proof -
  have "\<not> new_or_changed (L ++ map_of (current_files_of E w)) x"
    if "x \<in> set (current_files_of E w)" for x
  proof -
    obtain p info where x: "x = (p, info)" by (cases x)
    with that have "map_of (current_files_of E w) p = Some info"
      by (simp add: map_of_current)
    then show ?thesis
      by (simp add: x new_or_changed_def map_add_def)
  qed
  then show ?thesis
    by (simp add: new_or_changed_files_def filter_empty_conv)
qed

lemma current_files_frame [simp]:
  "current_files_of E (w\<lparr>vectorstore := v, processed_files_info := L\<rparr>) = current_files_of E w"
  by (simp add: current_files_of_def)

lemma current_files_makedirs [simp]: "current_files_of E (makedirs E w) = []"
  by (simp add: current_files_of_def makedirs_def)

lemma sync_no_selection:
  assumes "folder_exists w" "selected E w = []"
  shows "load_documents_from_folder_incremental E w =
           (([], vectorstore w,
             Some \<lparr>total_documents = int (length (current_files_of E w)), new_documents = 0,
                   reused_documents = int (length (current_files_of E w))\<rparr>), w)"
  using assms
  by (simp add: load_documents_from_folder_incremental_def Let_def selected_def)

lemma sync_nothing_processed:
  assumes "folder_exists w" "fst (fst (load_documents_from_folder_incremental E w)) = []"
  shows "load_documents_from_folder_incremental E w =
           (([], vectorstore w,
             Some \<lparr>total_documents = int (length (current_files_of E w)), new_documents = 0,
                   reused_documents = int (length (current_files_of E w))\<rparr>), w)"
  using assms
  by (simp add: load_documents_from_folder_incremental_def Let_def split: if_splits)

lemma sync_world:
  "snd (load_documents_from_folder_incremental E w) =
     (if \<not> folder_exists w then makedirs E w
      else if fst (fst (load_documents_from_folder_incremental E w)) = [] then w
      else w\<lparr>vectorstore :=
               add_to_vectorstore (vectorstore w)
                 (create_optimized_chunks_for_large_docs (split_text E)
                    (fst (fst (load_documents_from_folder_incremental E w)))),
             processed_files_info := processed_files_info w ++ map_of (current_files_of E w)\<rparr>)"
  by (simp add: load_documents_from_folder_incremental_def Let_def)

lemma selected_after_sync:
  "selected E (snd (load_documents_from_folder_incremental E w)) =
     (if folder_exists w \<and> fst (fst (load_documents_from_folder_incremental E w)) = []
      then selected E w else [])"
proof -
  have "new_or_changed_files [] L = []" for L
    by (simp add: new_or_changed_files_def)
  then show ?thesis
    by (simp add: sync_world) (simp add: selected_def selected_after_update)
qed

lemma folder_exists_after_sync:
  "folder_exists (snd (load_documents_from_folder_incremental E w))"
  by (simp add: sync_world makedirs_def)

lemma md5_collision_a:
  "md5_hexdigest collision_a = ''79054025255fb1a26e4bc422aef54eb4''"
  by code_simp

lemma md5_collision_b:
  "md5_hexdigest collision_b = ''79054025255fb1a26e4bc422aef54eb4''"
  by code_simp

lemma collision_distinct: "collision_a \<noteq> collision_b"
  by code_simp

lemma join_docs:
  "path_join ''docs'' ''a.txt'' = ''docs/a.txt''"
  "path_join ''docs'' ''b.txt'' = ''docs/b.txt''"
  by code_simp+

lemma ext_txt:
  "lower (splitext_ext ''a.txt'') = ''.txt''"
  "lower (splitext_ext ''b.txt'') = ''.txt''"
  by code_simp+

lemma txt_supported: "''.txt'' \<in> set supported_extensions"
  by (simp add: supported_extensions_def)

lemma text_of_collision_a: "strip_nonempty (decode collision_a)"
  by code_simp

lemma current_one_file:
  "current_files_of plain_text_env
     (w\<lparr>walk := [(''docs'', [''a.txt''])], disk := [''docs/a.txt'' \<mapsto> bs]\<rparr>) =
     [(''docs/a.txt'',
       \<lparr>hash = md5_hexdigest bs, name = ''a.txt'', extension = ''.txt'', folder = ''.''\<rparr>)]"
  by (simp add: current_files_of_def Let_def join_docs ext_txt txt_supported
        get_file_hash_eq plain_text_env_def)

lemma fresh_world_one:
  "fresh_world [(''a.txt'', bs)] =
     (fresh_world [])\<lparr>walk := [(''docs'', [''a.txt''])], disk := [''docs/a.txt'' \<mapsto> bs]\<rparr>"
  by (simp add: fresh_world_def)

lemma write_file_frame [simp]:
  "processed_files_info (write_file r f bs w) = processed_files_info w"
  "vectorstore (write_file r f bs w) = vectorstore w"
  "unwritable (write_file r f bs w) = unwritable w"
  "disk (write_file r f bs w) = (disk w)(path_join r f \<mapsto> bs)"
  by (simp_all add: write_file_def)

lemma save_step_unwritable:
  "upload_path E u \<in> unwritable w \<Longrightarrow>
   save_uploaded_files E (u # ups) (saved, docs, w) = save_uploaded_files E ups (saved, docs, w)"
  by (simp add: upload_path_def)

lemma save_step_written:
  "upload_path E u \<notin> unwritable w \<Longrightarrow>
   save_uploaded_files E (u # ups) (saved, docs, w) =
     save_uploaded_files E ups
       (saved @ [upload_path E u], docs @ uploaded_docs E u,
        write_file (documents_folder E) (upload_name u) (getbuffer u) w)"
  by (simp add: upload_path_def uploaded_docs_def Let_def split: sum.splits)

lemma saved_paths_Nil [simp]: "saved_paths E w [] = []"
  by (simp add: saved_paths_def)

lemma saved_paths_Cons:
  "saved_paths E w (u # ups) =
     (if upload_path E u \<in> unwritable w then saved_paths E w ups
      else upload_path E u # saved_paths E w ups)"
  by (simp add: saved_paths_def)

lemma saved_paths_cong:
  "unwritable w' = unwritable w \<Longrightarrow> saved_paths E w' ups = saved_paths E w ups"
  by (simp add: saved_paths_def)

lemma save_uploaded_files_saved:
  "fst (save_uploaded_files E ups (saved, docs, w)) = saved @ saved_paths E w ups"
proof (induction ups arbitrary: saved docs w)
  case Nil
  show ?case by simp
next
  case (Cons u ups)
  show ?case
  proof (cases "upload_path E u \<in> unwritable w")
    case True
    then show ?thesis
      unfolding save_step_unwritable [OF True] Cons.IH by (simp add: saved_paths_Cons)
  next
    case False
    have "saved_paths E (write_file (documents_folder E) (upload_name u) (getbuffer u) w) ups
            = saved_paths E w ups"
      by (rule saved_paths_cong) simp
    with False show ?thesis
      unfolding save_step_written [OF False] Cons.IH by (simp add: saved_paths_Cons)
  qed
qed

lemma save_uploaded_files_ledger:
  "processed_files_info (snd (snd (save_uploaded_files E ups (saved, docs, w))))
     = processed_files_info w"
proof (induction ups arbitrary: saved docs w)
  case Nil
  show ?case by simp
next
  case (Cons u ups)
  show ?case
  proof (cases "upload_path E u \<in> unwritable w")
    case True
    show ?thesis unfolding save_step_unwritable [OF True] Cons.IH by (rule refl)
  next
    case False
    show ?thesis unfolding save_step_written [OF False] Cons.IH by simp
  qed
qed

lemma save_uploaded_files_readable:
  "\<forall>p\<in>set saved. disk w p \<noteq> None \<Longrightarrow>
   \<forall>p\<in>set (fst (save_uploaded_files E ups (saved, docs, w))).
      disk (snd (snd (save_uploaded_files E ups (saved, docs, w)))) p \<noteq> None"
proof (induction ups arbitrary: saved docs w)
  case Nil
  then show ?case by simp
next
  case (Cons u ups)
  show ?case
  proof (cases "upload_path E u \<in> unwritable w")
    case True
    show ?thesis
      unfolding save_step_unwritable [OF True] by (rule Cons.IH [OF Cons.prems])
  next
    case False
    let ?w' = "write_file (documents_folder E) (upload_name u) (getbuffer u) w"
    have inv: "\<forall>p\<in>set (saved @ [upload_path E u]). disk ?w' p \<noteq> None"
      using Cons.prems by (simp add: upload_path_def)
    show ?thesis
      unfolding save_step_written [OF False] by (rule Cons.IH [OF inv])
  qed
qed

lemma record_saved_files_ok:
  assumes "\<forall>p\<in>set ps. dsk p \<noteq> None"
  shows "\<exists>L'. record_saved_files dsk ps L = Inr L' \<and> dom L' = dom L \<union> set ps"
  using assms
proof (induction ps arbitrary: L)
  case Nil
  then show ?case by simp
next
  case (Cons p ps)
  then obtain bs where bs: "dsk p = Some bs" by auto
  let ?L = "L(p \<mapsto> \<lparr>hash = md5_hexdigest bs, name = basename p,
                      extension = lower (splitext_ext p), folder = []\<rparr>)"
  from Cons.prems have "\<forall>p\<in>set ps. dsk p \<noteq> None" by simp
  from Cons.IH [OF this, of ?L] obtain L'
    where 1: "record_saved_files dsk ps ?L = Inr L'" and 2: "dom L' = dom ?L \<union> set ps"
    by blast
  have "record_saved_files dsk (p # ps) L = Inr L'"
    using 1 by (simp add: get_file_hash_eq bs)
  moreover have "dom L' = dom L \<union> set (p # ps)"
    using 2 by auto
  ultimately show ?case by blast
qed

lemma makedirs_frame [simp]:
  "processed_files_info (makedirs E w) = processed_files_info w"
  "vectorstore (makedirs E w) = vectorstore w"
  "unwritable (makedirs E w) = unwritable w"
  by (simp_all add: makedirs_def)

lemma upload_ledger:
  "\<exists>n vs w'. process_uploaded_files E ups w = (Inr (n, vs), w')
     \<and> (n = 0 \<longrightarrow> processed_files_info w' = processed_files_info w)
     \<and> (n \<noteq> 0 \<longrightarrow> dom (processed_files_info w')
            = dom (processed_files_info w) \<union> set (saved_paths E w ups))"
proof -
  define w0 where "w0 = (if \<not> folder_exists w then makedirs E w else w)"
  define run where "run = save_uploaded_files E ups ([], [], w0)"
  define saved where "saved = fst run"
  define docs where "docs = fst (snd run)"
  define w1 where "w1 = snd (snd run)"
  have run_eq: "save_uploaded_files E ups ([], [], w0) = (saved, docs, w1)"
    by (simp add: run_def saved_def docs_def w1_def)
  have w0_led: "processed_files_info w0 = processed_files_info w"
    and w0_unw: "unwritable w0 = unwritable w"
    by (simp_all add: w0_def)
  have led: "processed_files_info w1 = processed_files_info w"
    unfolding w1_def run_def by (simp only: save_uploaded_files_ledger w0_led)
  have sv: "saved = saved_paths E w ups"
    unfolding saved_def run_def
    by (simp only: save_uploaded_files_saved append_Nil saved_paths_cong [OF w0_unw])
  have rd: "\<forall>p\<in>set saved. disk w1 p \<noteq> None"
    unfolding saved_def w1_def run_def
    by (rule save_uploaded_files_readable) simp
  have unfold: "process_uploaded_files E ups w =
      (if docs \<noteq> []
       then (case record_saved_files (disk w1) saved (processed_files_info w1) of
               Inl e \<Rightarrow>
                 (Inl e,
                  w1\<lparr>vectorstore := add_to_vectorstore (vectorstore w1)
                       (create_optimized_chunks_for_large_docs (split_text E) docs)\<rparr>)
             | Inr ledger \<Rightarrow>
                 (Inr (length docs,
                       add_to_vectorstore (vectorstore w1)
                         (create_optimized_chunks_for_large_docs (split_text E) docs)),
                  w1\<lparr>vectorstore := add_to_vectorstore (vectorstore w1)
                       (create_optimized_chunks_for_large_docs (split_text E) docs),
                     processed_files_info := ledger\<rparr>))
       else (Inr (0, vectorstore w1), w1))"
    unfolding process_uploaded_files_def w0_def [symmetric]
    by (simp add: run_eq Let_def)
  show ?thesis
  proof (cases "docs = []")
    case True
    then show ?thesis
      unfolding unfold by (simp add: led)
  next
    case False
    from record_saved_files_ok [OF rd, of "processed_files_info w1"] obtain L'
      where L': "record_saved_files (disk w1) saved (processed_files_info w1) = Inr L'"
        and dom: "dom L' = dom (processed_files_info w1) \<union> set saved"
      by blast
    show ?thesis
      unfolding unfold using False L' [unfolded led sv] dom [unfolded led sv]
      by (simp add: led sv)
  qed
qed

lemma save_uploaded_files_docs:
  "fst (snd (save_uploaded_files E ups (saved, docs, w))) = docs @ processed_uploads E w ups"
proof (induction ups arbitrary: saved docs w)
  case Nil
  show ?case by (simp add: processed_uploads_def)
next
  case (Cons u ups)
  show ?case
  proof (cases "upload_path E u \<in> unwritable w")
    case True
    show ?thesis
      unfolding save_step_unwritable [OF True] Cons.IH
      using True by (simp add: processed_uploads_def)
  next
    case False
    show ?thesis
      unfolding save_step_written [OF False] Cons.IH
      using False by (simp add: processed_uploads_def)
  qed
qed

lemma processed_uploads_cong:
  "unwritable w' = unwritable w \<Longrightarrow> processed_uploads E w' ups = processed_uploads E w ups"
  by (simp add: processed_uploads_def)

lemma upload_count:
  "process_uploaded_files E ups w = (Inr (n, vs), w') \<Longrightarrow>
   n = length (processed_uploads E w ups)"
proof -
  assume a: "process_uploaded_files E ups w = (Inr (n, vs), w')"
  define w0 where "w0 = (if \<not> folder_exists w then makedirs E w else w)"
  define run where "run = save_uploaded_files E ups ([], [], w0)"
  have w0_unw: "unwritable w0 = unwritable w"
    by (simp add: w0_def)
  have docs: "fst (snd run) = processed_uploads E w ups"
    unfolding run_def
    by (simp only: save_uploaded_files_docs append_Nil processed_uploads_cong [OF w0_unw])
  have run_eq: "save_uploaded_files E ups ([], [], w0) = (fst run, fst (snd run), snd (snd run))"
    by (simp add: run_def)
  from a show ?thesis
    unfolding process_uploaded_files_def w0_def [symmetric]
    by (simp add: run_eq docs Let_def split: if_splits sum.splits)
qed

lemma decode_small:
  "decode hi_bytes = ''hi''"
  "decode blank_bytes = '' ''"
  by code_simp+

lemma strip_small:
  "strip_nonempty ''hi''"
  "\<not> strip_nonempty '' ''"
  by code_simp+

lemma current_two_files:
  "current_files_of plain_text_env (fresh_world [(''a.txt'', bs), (''b.txt'', bs')]) =
     [(''docs/a.txt'',
       \<lparr>hash = md5_hexdigest bs, name = ''a.txt'', extension = ''.txt'', folder = ''.''\<rparr>),
      (''docs/b.txt'',
       \<lparr>hash = md5_hexdigest bs', name = ''b.txt'', extension = ''.txt'', folder = ''.''\<rparr>)]"
  by (simp add: current_files_of_def fresh_world_def Let_def join_docs ext_txt txt_supported
        get_file_hash_eq plain_text_env_def)

lemma current_file_b:
  "current_files_of plain_text_env (fresh_world [(''b.txt'', bs)]) =
     [(''docs/b.txt'',
       \<lparr>hash = md5_hexdigest bs, name = ''b.txt'', extension = ''.txt'', folder = ''.''\<rparr>)]"
  by (simp add: current_files_of_def fresh_world_def Let_def join_docs ext_txt txt_supported
        get_file_hash_eq plain_text_env_def)

lemma extract_plain:
  "extract_text_from_file_path plain_text_env p (Some bs) = Inr (decode bs)"
  by (simp add: plain_text_env_def)

lemma fresh_world_fields [simp]:
  "folder_exists (fresh_world fs)"
  "processed_files_info (fresh_world fs) = Map.empty"
  "unwritable (fresh_world fs) = {}"
  "walk (fresh_world fs) = [(''docs'', map fst fs)]"
  by (simp_all add: fresh_world_def)

lemma fresh_world_disk:
  "disk (fresh_world [(''a.txt'', bs), (''b.txt'', bs')]) ''docs/a.txt'' = Some bs"
  "disk (fresh_world [(''a.txt'', bs), (''b.txt'', bs')]) ''docs/b.txt'' = Some bs'"
  "disk (fresh_world [(''a.txt'', bs)]) ''docs/a.txt'' = Some bs"
  "disk (fresh_world [(''b.txt'', bs)]) ''docs/b.txt'' = Some bs"
  by (simp_all add: fresh_world_def)

lemma selected_two_files:
  "selected plain_text_env (fresh_world [(''a.txt'', bs), (''b.txt'', bs')])
     = [''docs/a.txt'', ''docs/b.txt'']"
  by (simp add: selected_def current_two_files new_or_changed_files_def new_or_changed_def)

lemma selected_file_b:
  "selected plain_text_env (fresh_world [(''b.txt'', bs)]) = [''docs/b.txt'']"
  by (simp add: selected_def current_file_b new_or_changed_files_def new_or_changed_def)

lemma sync_hi_blank_docs:
  "length (fst (fst (load_documents_from_folder_incremental plain_text_env
      (fresh_world [(''a.txt'', hi_bytes), (''b.txt'', blank_bytes)])))) = 1"
  by (simp add: sync_new_docs selected_two_files current_two_files fresh_world_disk
        extract_plain decode_small strip_small)

lemma sync_blank_docs:
  "fst (fst (load_documents_from_folder_incremental plain_text_env
      (fresh_world [(''b.txt'', blank_bytes)]))) = []"
  by (simp add: sync_new_docs selected_file_b current_file_b fresh_world_disk
        extract_plain decode_small strip_small)

lemma upload_ledger':
  "\<exists>vs w'. process_uploaded_files E ups w
               = (Inr (length (processed_uploads E w ups), vs), w')
     \<and> (processed_uploads E w ups = [] \<longrightarrow> processed_files_info w' = processed_files_info w)
     \<and> (processed_uploads E w ups \<noteq> [] \<longrightarrow>
          dom (processed_files_info w')
            = dom (processed_files_info w) \<union> set (saved_paths E w ups))"
proof -
  from upload_ledger [of E ups w] obtain n vs w'
    where r: "process_uploaded_files E ups w = (Inr (n, vs), w')"
      and a: "n = 0 \<longrightarrow> processed_files_info w' = processed_files_info w"
      and b: "n \<noteq> 0 \<longrightarrow> dom (processed_files_info w')
                 = dom (processed_files_info w) \<union> set (saved_paths E w ups)"
    by blast
  from upload_count [OF r] have n: "n = length (processed_uploads E w ups)" .
  with r a b show ?thesis by auto
qed

lemma upload_paths_small:
  "upload_path plain_text_env \<lparr>upload_name = ''a.txt'', getbuffer = bs\<rparr> = ''docs/a.txt''"
  "upload_path plain_text_env \<lparr>upload_name = ''b.txt'', getbuffer = bs\<rparr> = ''docs/b.txt''"
  by (simp_all add: upload_path_def plain_text_env_def join_docs)

lemma two_uploads_processed:
  "length (processed_uploads plain_text_env (fresh_world []) two_uploads) = 1"
  by (simp add: processed_uploads_def two_uploads_def uploaded_docs_def upload_paths_small
        extract_plain decode_small strip_small)

lemma two_uploads_saved:
  "saved_paths plain_text_env (fresh_world []) two_uploads = [''docs/a.txt'', ''docs/b.txt'']"
  by (simp add: saved_paths_def two_uploads_def upload_paths_small)

text \<open>
  Claim C1, as amended. A file that the walk lists under the corpus folder, with a
  supported extension and readable bytes, is selected for extraction and chunking if and
  only if its path is absent from the ledger or the MD5 digest of its bytes differs from
  the digest recorded there. The selection does not depend on modification times. The
  documents of a sync are extracted from the selected files and from no others.
\<close>

theorem incremental_selection:
  assumes "(root_dir, files) \<in> set (walk w)" and "file \<in> set files"
    and "lower (splitext_ext file) \<in> set supported_extensions"
    and "disk w (path_join root_dir file) = Some bs"
  shows "(path_join root_dir file \<in> set (selected E w) \<longleftrightarrow>
            (case processed_files_info w (path_join root_dir file) of
               None \<Rightarrow> True
             | Some entry \<Rightarrow> hash entry \<noteq> md5_hexdigest bs))
       \<and> get_file_hash (disk w) (path_join root_dir file) = Inr (md5_hexdigest bs)
       \<and> selected E (w\<lparr>mtime := m\<rparr>) = selected E w
       \<and> (folder_exists w \<longrightarrow>
            fst (fst (load_documents_from_folder_incremental E w)) =
              extract_new_documents E (disk w) (current_files_of E w) (selected E w) [])"
  using selected_listed [OF assms, of E] assms(4)
  by (simp add: get_file_hash_eq selected_mtime sync_new_docs)

theorem incremental_selection_witness:
  "path_join ''docs'' ''a.txt'' \<in> set (selected plain_text_env (fresh_world [(''a.txt'', hi_bytes)]))
   \<and> get_file_hash (disk (fresh_world [(''a.txt'', hi_bytes)])) (path_join ''docs'' ''a.txt'')
       = Inr (md5_hexdigest hi_bytes)"
proof -
  have 1: "(''docs'', [''a.txt'']) \<in> set (walk (fresh_world [(''a.txt'', hi_bytes)]))"
    by simp
  have 2: "''a.txt'' \<in> set [''a.txt'']"
    by simp
  have 3: "lower (splitext_ext ''a.txt'') \<in> set supported_extensions"
    by (simp add: ext_txt txt_supported)
  have 4: "disk (fresh_world [(''a.txt'', hi_bytes)]) (path_join ''docs'' ''a.txt'')
             = Some hi_bytes"
    by (simp add: join_docs fresh_world_disk)
  from incremental_selection [OF 1 2 3 4, of plain_text_env]
  show ?thesis by simp
qed

text \<open>
  Claim C1 as stated fails: changing the bytes of a file does not always cause
  reprocessing. The two files below differ and have the same MD5 digest; after a sync
  has indexed the first, replacing its bytes by those of the second leaves it unselected.
\<close>

theorem md5_collision_not_selected_counterexample:
  "collision_a \<noteq> collision_b
   \<and> disk (fresh_world [(''a.txt'', collision_a)]) ''docs/a.txt'' = Some collision_a
   \<and> selected plain_text_env (fresh_world [(''a.txt'', collision_a)]) = [''docs/a.txt'']
   \<and> selected plain_text_env
       ((snd (load_documents_from_folder_incremental plain_text_env
                (fresh_world [(''a.txt'', collision_a)])))
        \<lparr>disk := [''docs/a.txt'' \<mapsto> collision_b]\<rparr>) = []"
proof -
  let ?E = plain_text_env
  let ?w = "fresh_world [(''a.txt'', collision_a)]"
  let ?info = "\<lambda>bs. \<lparr>hash = md5_hexdigest bs, name = ''a.txt'', extension = ''.txt'',
                      folder = ''.''\<rparr>"
  have cur: "current_files_of ?E ?w = [(''docs/a.txt'', ?info collision_a)]"
    unfolding fresh_world_one by (rule current_one_file)
  have sel: "selected ?E ?w = [''docs/a.txt'']"
    by (simp add: selected_def cur new_or_changed_files_def new_or_changed_def)
  have ex: "folder_exists ?w"
    by simp
  have dsk: "disk ?w ''docs/a.txt'' = Some collision_a"
    by (simp add: fresh_world_disk)
  have docs: "fst (fst (load_documents_from_folder_incremental ?E ?w)) \<noteq> []"
    by (simp add: sync_new_docs [OF ex] sel cur dsk extract_plain text_of_collision_a)
  have ledger: "processed_files_info (snd (load_documents_from_folder_incremental ?E ?w))
                  ''docs/a.txt'' = Some (?info collision_a)"
    using docs by (simp add: sync_ledger cur)
  let ?w1 = "snd (load_documents_from_folder_incremental ?E ?w)"
  have cur': "current_files_of ?E (?w1\<lparr>disk := [''docs/a.txt'' \<mapsto> collision_b]\<rparr>)
                = [(''docs/a.txt'', ?info collision_b)]"
  proof -
    have "walk ?w1 = [(''docs'', [''a.txt''])]"
      using docs by (simp add: sync_world)
    then have "?w1\<lparr>disk := [''docs/a.txt'' \<mapsto> collision_b]\<rparr>
                 = ?w1\<lparr>walk := [(''docs'', [''a.txt''])],
                        disk := [''docs/a.txt'' \<mapsto> collision_b]\<rparr>"
      by simp
    then show ?thesis
      by (simp only: current_one_file)
  qed
  have "selected ?E (?w1\<lparr>disk := [''docs/a.txt'' \<mapsto> collision_b]\<rparr>) = []"
    by (simp add: selected_def cur' new_or_changed_files_def new_or_changed_def ledger
          md5_collision_a md5_collision_b)
  with collision_distinct dsk sel show ?thesis by simp
qed

text \<open>
  Claim C2, as amended. After a sync the ledger is unchanged when no new or changed file
  was processed successfully; otherwise it holds, besides its old entries, the current
  entry of every scanned file, whether or not the extraction of that file succeeded. The
  upload intake always returns; when no uploaded file yields text it leaves the ledger
  unchanged, and otherwise the ledger gains an entry for every uploaded file that was
  saved, whether or not that file yielded text.
\<close>

theorem ledger_after_intake:
  "processed_files_info (snd (load_documents_from_folder_incremental E w)) =
     (if fst (fst (load_documents_from_folder_incremental E w)) = []
      then processed_files_info w
      else processed_files_info w ++ map_of (current_files_of E w))
   \<and> (\<exists>vs w'. process_uploaded_files E ups w
                  = (Inr (length (processed_uploads E w ups), vs), w')
        \<and> (processed_uploads E w ups = [] \<longrightarrow>
             processed_files_info w' = processed_files_info w)
        \<and> (processed_uploads E w ups \<noteq> [] \<longrightarrow>
             dom (processed_files_info w')
               = dom (processed_files_info w) \<union> set (saved_paths E w ups)))"
  using sync_ledger [of E w] upload_ledger' [of E ups w] by blast

theorem ledger_after_intake_witness:
  "processed_files_info
     (snd (load_documents_from_folder_incremental plain_text_env
        (fresh_world [(''a.txt'', hi_bytes), (''b.txt'', blank_bytes)])))
     = Map.empty ++ map_of (current_files_of plain_text_env
         (fresh_world [(''a.txt'', hi_bytes), (''b.txt'', blank_bytes)]))
   \<and> dom (processed_files_info
            (snd (process_uploaded_files plain_text_env two_uploads (fresh_world []))))
       = {''docs/a.txt'', ''docs/b.txt''}"
proof -
  let ?w = "fresh_world [(''a.txt'', hi_bytes), (''b.txt'', blank_bytes)]"
  have docs: "fst (fst (load_documents_from_folder_incremental plain_text_env ?w)) \<noteq> []"
    using sync_hi_blank_docs by auto
  have ups: "processed_uploads plain_text_env (fresh_world []) two_uploads \<noteq> []"
    using two_uploads_processed by auto
  from ledger_after_intake [of plain_text_env ?w two_uploads]
  have 1: "processed_files_info (snd (load_documents_from_folder_incremental plain_text_env ?w))
             = Map.empty ++ map_of (current_files_of plain_text_env ?w)"
    using docs by simp
  from ledger_after_intake [of plain_text_env "fresh_world []" two_uploads] ups
  obtain vs w' where
    "process_uploaded_files plain_text_env two_uploads (fresh_world [])
       = (Inr (length (processed_uploads plain_text_env (fresh_world []) two_uploads), vs), w')"
    "dom (processed_files_info w') = dom (processed_files_info (fresh_world []))
       \<union> set (saved_paths plain_text_env (fresh_world []) two_uploads)"
    by blast
  then have 2: "dom (processed_files_info
            (snd (process_uploaded_files plain_text_env two_uploads (fresh_world []))))
       = {''docs/a.txt'', ''docs/b.txt''}"
    by (simp add: two_uploads_saved)
  from 1 2 show ?thesis by blast
qed

text \<open>
  Claim C2 as stated fails: of two new files, one with text and one that yields only a
  space, the second is skipped by the extraction and is entered into the ledger all the
  same, so that the next sync does not select it; an upload of the same two files enters
  the second into the ledger as well.
\<close>

theorem ledger_holds_skipped_file_counterexample:
  "extract_text_from_file_path plain_text_env ''docs/b.txt''
     (disk (fresh_world [(''a.txt'', hi_bytes), (''b.txt'', blank_bytes)]) ''docs/b.txt'')
     = Inr '' ''
   \<and> \<not> strip_nonempty '' ''
   \<and> ''docs/b.txt'' \<in> set (selected plain_text_env
         (fresh_world [(''a.txt'', hi_bytes), (''b.txt'', blank_bytes)]))
   \<and> processed_files_info
       (snd (load_documents_from_folder_incremental plain_text_env
          (fresh_world [(''a.txt'', hi_bytes), (''b.txt'', blank_bytes)]))) ''docs/b.txt''
       \<noteq> None
   \<and> selected plain_text_env
       (snd (load_documents_from_folder_incremental plain_text_env
          (fresh_world [(''a.txt'', hi_bytes), (''b.txt'', blank_bytes)]))) = []
   \<and> ''docs/b.txt'' \<in> dom (processed_files_info
         (snd (process_uploaded_files plain_text_env two_uploads (fresh_world []))))"
proof -
  let ?w = "fresh_world [(''a.txt'', hi_bytes), (''b.txt'', blank_bytes)]"
  have docs: "fst (fst (load_documents_from_folder_incremental plain_text_env ?w)) \<noteq> []"
    using sync_hi_blank_docs by auto
  have 1: "extract_text_from_file_path plain_text_env ''docs/b.txt'' (disk ?w ''docs/b.txt'')
             = Inr '' ''"
    by (simp add: fresh_world_disk extract_plain decode_small)
  have 2: "''docs/b.txt'' \<in> set (selected plain_text_env ?w)"
    by (simp add: selected_two_files)
  have 3: "processed_files_info
             (snd (load_documents_from_folder_incremental plain_text_env ?w)) ''docs/b.txt''
             \<noteq> None"
    using docs by (simp add: sync_ledger current_two_files)
  have 4: "selected plain_text_env
             (snd (load_documents_from_folder_incremental plain_text_env ?w)) = []"
    using docs by (simp add: selected_after_sync)
  have ups: "processed_uploads plain_text_env (fresh_world []) two_uploads \<noteq> []"
    using two_uploads_processed by auto
  from upload_ledger' [of plain_text_env two_uploads "fresh_world []"] ups
  obtain vs w' where
    "process_uploaded_files plain_text_env two_uploads (fresh_world [])
       = (Inr (length (processed_uploads plain_text_env (fresh_world []) two_uploads), vs), w')"
    "dom (processed_files_info w') = dom (processed_files_info (fresh_world []))
       \<union> set (saved_paths plain_text_env (fresh_world []) two_uploads)"
    by blast
  then have 5: "''docs/b.txt'' \<in> dom (processed_files_info
         (snd (process_uploaded_files plain_text_env two_uploads (fresh_world []))))"
    by (simp add: two_uploads_saved)
  from 1 2 3 4 5 strip_small(2) show ?thesis by blast
qed

text \<open>
  Claim C5, as amended. When the sync runs twice with nothing changed in between, the
  second call produces no new document, leaves the ledger and the vector store as the
  first call left them, and reports \<open>new_documents = 0\<close> with \<open>reused_documents\<close> equal
  to the number of tracked files. It selects no file, and so extracts nothing, provided
  the first call processed at least one file or had selected none.
\<close>

theorem sync_twice:
  assumes "load_documents_from_folder_incremental E w = (r1, w1)"
    and "load_documents_from_folder_incremental E w1 = (r2, w2)"
  shows "fst r2 = [] \<and> w2 = w1
       \<and> snd (snd r2) =
           Some \<lparr>total_documents = int (length (current_files_of E w1)), new_documents = 0,
                 reused_documents = int (length (current_files_of E w1))\<rparr>
       \<and> (fst r1 \<noteq> [] \<or> selected E w = [] \<longrightarrow> selected E w1 = [])"
proof -
  have w1: "w1 = snd (load_documents_from_folder_incremental E w)"
    and r1: "r1 = fst (load_documents_from_folder_incremental E w)"
    using assms(1) by simp_all
  have ex: "folder_exists w1"
    unfolding w1 by (rule folder_exists_after_sync)
  have sel: "selected E w1 = (if folder_exists w \<and> fst r1 = [] then selected E w else [])"
    unfolding w1 r1 by (rule selected_after_sync)
  have "fst (fst (load_documents_from_folder_incremental E w1)) = []"
  proof (cases "folder_exists w \<and> fst r1 = []")
    case True
    then have "w1 = w"
      unfolding w1 r1 by (simp add: sync_world)
    with True r1 show ?thesis by simp
  next
    case False
    with sel have "selected E w1 = []" by simp
    with ex show ?thesis by (simp add: sync_new_docs)
  qed
  from sync_nothing_processed [OF ex this] assms(2) sel
  show ?thesis by auto
qed

theorem sync_twice_witness:
  "fst (fst (load_documents_from_folder_incremental plain_text_env
        (snd (load_documents_from_folder_incremental plain_text_env
           (fresh_world [(''a.txt'', hi_bytes), (''b.txt'', blank_bytes)]))))) = []
   \<and> selected plain_text_env
        (snd (load_documents_from_folder_incremental plain_text_env
           (fresh_world [(''a.txt'', hi_bytes), (''b.txt'', blank_bytes)]))) = []"
proof -
  let ?w = "fresh_world [(''a.txt'', hi_bytes), (''b.txt'', blank_bytes)]"
  have "fst (fst (load_documents_from_folder_incremental plain_text_env ?w)) \<noteq> []"
    using sync_hi_blank_docs by auto
  with sync_twice [OF surjective_pairing surjective_pairing, of plain_text_env ?w]
  show ?thesis by simp
qed

text \<open>
  Claim C5 as stated fails: a file whose extraction yields only whitespace is not entered
  into the ledger when nothing else was processed, so that the second call, with nothing
  changed, selects it again and extracts it again.
\<close>

theorem sync_twice_reselects_counterexample:
  "snd (load_documents_from_folder_incremental plain_text_env
          (fresh_world [(''b.txt'', blank_bytes)])) = fresh_world [(''b.txt'', blank_bytes)]
   \<and> selected plain_text_env
        (snd (load_documents_from_folder_incremental plain_text_env
                (fresh_world [(''b.txt'', blank_bytes)]))) = [''docs/b.txt'']"
  by (simp add: sync_world sync_blank_docs selected_file_b)


section \<open>The chat handler\<close>





section \<open>Provenance of the chunks\<close>

lemma has_provenance_built:
  "has_provenance \<lparr>page_content = t,
      metadata = [''source'' \<mapsto> Str n, ''file_path'' \<mapsto> Str p, ''file_type'' \<mapsto> Str e,
                  ''folder'' \<mapsto> Str f]\<rparr>"
  by (simp add: has_provenance_def)

lemma extract_new_documents_provenance:
  "list_all has_provenance acc \<Longrightarrow>
   list_all has_provenance (extract_new_documents E dsk cur sel acc)"
proof (induction sel arbitrary: acc)
  case Nil
  then show ?case by simp
next
  case (Cons p sel)
  show ?case
  proof (cases "extract_text_from_file_path E p (dsk p)")
    case (Inl e)
    with Cons show ?thesis by simp
  next
    case (Inr t)
    show ?thesis
    proof (cases "strip_nonempty t \<and> map_of cur p \<noteq> None")
      case True
      then obtain info where info: "map_of cur p = Some info" by auto
      let ?d = "\<lparr>page_content = t,
                 metadata = [''source'' \<mapsto> Str (name info), ''file_path'' \<mapsto> Str p,
                             ''file_type'' \<mapsto> Str (extension info),
                             ''folder'' \<mapsto> Str (folder info)]\<rparr>"
      have "list_all has_provenance (acc @ [?d])"
        using Cons.prems by (simp add: has_provenance_built)
      from Cons.IH [OF this] True Inr info show ?thesis by simp
    next
      case False
      with Inr Cons show ?thesis by (auto split: option.splits)
    qed
  qed
qed

lemma uploaded_docs_provenance: "list_all has_provenance (uploaded_docs E u)"
  by (simp add: uploaded_docs_def has_provenance_built split: sum.splits)

lemma processed_uploads_provenance: "list_all has_provenance (processed_uploads E w ups)"
  by (induction ups) (simp_all add: processed_uploads_def uploaded_docs_provenance)

lemma has_provenance_cong:
  "metadata c ''source'' = metadata d ''source'' \<Longrightarrow>
   metadata c ''file_path'' = metadata d ''file_path'' \<Longrightarrow>
   metadata c ''folder'' = metadata d ''folder'' \<Longrightarrow>
   has_provenance c = has_provenance d"
  by (simp add: has_provenance_def)

lemma chunk_origin:
  assumes "c \<in> set (create_optimized_chunks_for_large_docs st docs)"
  shows "\<exists>d\<in>set docs. \<exists>sp tier j.
           j < length (st sp (page_content d))
         \<and> page_content c = st sp (page_content d) ! j
         \<and> tier \<in> tiers_of (size_category (length (page_content d)))
         \<and> metadata c ''source'' = metadata d ''source''
         \<and> metadata c ''file_path'' = metadata d ''file_path''
         \<and> metadata c ''folder'' = metadata d ''folder''
         \<and> metadata c ''chunk_type'' = Some (Str tier)
         \<and> metadata c ''chunk_index'' = Some (Num j)
         \<and> metadata c ''total_chunks'' = Some (Num (length (st sp (page_content d))))
         \<and> metadata c ''doc_size_category''
             = Some (Str (size_category (length (page_content d))))
         \<and> metadata c ''chunk_size'' = Some (Num (length (page_content c)))"
proof -
  from assms obtain d where d: "d \<in> set docs" and c: "c \<in> set (chunk_document st d [])"
    by (auto simp: create_chunks_concat)
  from in_chunk_document [OF c] obtain sp tier
    where tier: "tier \<in> tiers_of (size_category (length (page_content d)))"
      and ct: "c \<in> set (tier_chunks st d (size_category (length (page_content d))) tier sp)"
    by blast
  from in_tier_chunks [OF ct] obtain j
    where j: "j < length (st sp (page_content d))"
      and pc: "page_content c = st sp (page_content d) ! j"
      and md: "metadata c = enhanced_metadata (metadata d) tier j
                 (length (st sp (page_content d)))
                 (size_category (length (page_content d))) c"
    by blast
  have "metadata c ''source'' = metadata d ''source''
      \<and> metadata c ''file_path'' = metadata d ''file_path''
      \<and> metadata c ''folder'' = metadata d ''folder''
      \<and> metadata c ''chunk_type'' = Some (Str tier)
      \<and> metadata c ''chunk_index'' = Some (Num j)
      \<and> metadata c ''total_chunks'' = Some (Num (length (st sp (page_content d))))
      \<and> metadata c ''doc_size_category''
          = Some (Str (size_category (length (page_content d))))
      \<and> metadata c ''chunk_size'' = Some (Num (length (page_content c)))"
    by (subst (1 2 3 4 5 6 7 8) md) (simp add: enhanced_metadata_def)
  with d j pc tier show ?thesis by blast
qed

lemma chunk_origin_provenance:
  assumes "c \<in> set (create_optimized_chunks_for_large_docs st docs)"
  shows "\<exists>d\<in>set docs. metadata c ''source'' = metadata d ''source''
           \<and> metadata c ''file_path'' = metadata d ''file_path''
           \<and> metadata c ''folder'' = metadata d ''folder''"
  using chunk_origin [OF assms]
  by (elim bexE exE conjE) (rule bexI, intro conjI, assumption+)

lemma chunks_keep_provenance:
  assumes "list_all has_provenance docs"
  shows "list_all has_provenance (create_optimized_chunks_for_large_docs st docs)"
proof -
  have "has_provenance c" if "c \<in> set (create_optimized_chunks_for_large_docs st docs)" for c
  proof -
    from chunk_origin_provenance [OF that] obtain d where d: "d \<in> set docs"
      and m: "metadata c ''source'' = metadata d ''source''"
        "metadata c ''file_path'' = metadata d ''file_path''"
        "metadata c ''folder'' = metadata d ''folder''"
      by blast
    from d assms have "has_provenance d"
      by (simp add: list_all_iff)
    with has_provenance_cong [OF m] show ?thesis
      by simp
  qed
  then show ?thesis by (simp add: list_all_iff)
qed

lemma sync_documents_provenance:
  "list_all has_provenance (fst (fst (load_documents_from_folder_incremental E w)))"
proof (cases "folder_exists w")
  case True
  then show ?thesis
    by (simp add: sync_new_docs extract_new_documents_provenance)
next
  case False
  then show ?thesis
    by (simp add: load_documents_from_folder_incremental_def)
qed

text \<open>
  Claim C9. Every chunk that the engine produces comes from one of the input documents
  and from one piece of one of its chunkings. It carries that document's \<open>source\<close>,
  \<open>file_path\<close> and \<open>folder\<close> entries unchanged, and is stamped with the name of its
  tier (one of the tiers of the document's size category), its index in the tier, the
  number of chunks of the tier, the size category of the document and the length of its
  own text. The documents that the sync and the upload intake hand to the engine name
  their file, its path and its folder, and so does every chunk made from them.
\<close>

theorem chunk_provenance:
  assumes "c \<in> set (create_optimized_chunks_for_large_docs st docs)"
  shows "(\<exists>d\<in>set docs. \<exists>sp tier j.
           j < length (st sp (page_content d))
         \<and> page_content c = st sp (page_content d) ! j
         \<and> tier \<in> tiers_of (size_category (length (page_content d)))
         \<and> metadata c ''source'' = metadata d ''source''
         \<and> metadata c ''file_path'' = metadata d ''file_path''
         \<and> metadata c ''folder'' = metadata d ''folder''
         \<and> metadata c ''chunk_type'' = Some (Str tier)
         \<and> metadata c ''chunk_index'' = Some (Num j)
         \<and> metadata c ''total_chunks'' = Some (Num (length (st sp (page_content d))))
         \<and> metadata c ''doc_size_category''
             = Some (Str (size_category (length (page_content d))))
         \<and> metadata c ''chunk_size'' = Some (Num (length (page_content c))))
       \<and> list_all has_provenance
           (create_optimized_chunks_for_large_docs (split_text E)
              (fst (fst (load_documents_from_folder_incremental E w))))
       \<and> list_all has_provenance
           (create_optimized_chunks_for_large_docs (split_text E) (processed_uploads E w' ups))"
  using chunk_origin [OF assms]
    chunks_keep_provenance [OF sync_documents_provenance, of "split_text E" E w]
    chunks_keep_provenance [OF processed_uploads_provenance, of "split_text E" E w' ups]
  by (intro conjI)

theorem chunk_provenance_witness:
  "(\<exists>d\<in>set [short_doc]. \<exists>sp tier j.
           j < length (first_three sp (page_content d))
         \<and> page_content (hd (create_optimized_chunks_for_large_docs first_three [short_doc])) = first_three sp (page_content d) ! j
         \<and> tier \<in> tiers_of (size_category (length (page_content d)))
         \<and> metadata (hd (create_optimized_chunks_for_large_docs first_three [short_doc])) ''source'' = metadata d ''source''
         \<and> metadata (hd (create_optimized_chunks_for_large_docs first_three [short_doc])) ''file_path'' = metadata d ''file_path''
         \<and> metadata (hd (create_optimized_chunks_for_large_docs first_three [short_doc])) ''folder'' = metadata d ''folder''
         \<and> metadata (hd (create_optimized_chunks_for_large_docs first_three [short_doc])) ''chunk_type'' = Some (Str tier)
         \<and> metadata (hd (create_optimized_chunks_for_large_docs first_three [short_doc])) ''chunk_index'' = Some (Num j)
         \<and> metadata (hd (create_optimized_chunks_for_large_docs first_three [short_doc])) ''total_chunks'' = Some (Num (length (first_three sp (page_content d))))
         \<and> metadata (hd (create_optimized_chunks_for_large_docs first_three [short_doc])) ''doc_size_category''
             = Some (Str (size_category (length (page_content d))))
         \<and> metadata (hd (create_optimized_chunks_for_large_docs first_three [short_doc])) ''chunk_size'' = Some (Num (length (page_content (hd (create_optimized_chunks_for_large_docs first_three [short_doc]))))))
   \<and> list_all has_provenance
       (create_optimized_chunks_for_large_docs (split_text plain_text_env)
          (fst (fst (load_documents_from_folder_incremental plain_text_env
             (fresh_world [(''a.txt'', hi_bytes)])))))
   \<and> list_all has_provenance
       (create_optimized_chunks_for_large_docs (split_text plain_text_env)
          (processed_uploads plain_text_env (fresh_world []) two_uploads))"
proof -
  have "create_optimized_chunks_for_large_docs first_three [short_doc] \<noteq> []"
    by (simp add: create_chunks_concat chunk_document_tiers tier_chunks_def
          split_documents_def first_three_def short_doc_def)
  then have "hd (create_optimized_chunks_for_large_docs first_three [short_doc])
               \<in> set (create_optimized_chunks_for_large_docs first_three [short_doc])"
    by simp
  from chunk_provenance [OF this, of plain_text_env "fresh_world [(''a.txt'', hi_bytes)]" "fresh_world []" two_uploads] show ?thesis .
qed

end
